theory Spec2Isabelle
  imports Complex_Main "HOL-Library.Sublist"
begin

section \<open>The store of the web client (web/store/index.ts)\<close>

subsection \<open>Data model\<close>

text \<open>
  The models \<^verbatim>\<open>~/models/message\<close> and \<^verbatim>\<open>~/models/heartbeat\<close> are imported by the
  store, which only moves their values around and never looks inside them: they are
  opaque types here.
\<close>

typedecl Message

typedecl Heartbeat

text \<open>
  Modelled from the spec: the declaration of \<^verbatim>\<open>~/models/phone\<close> is not among the
  sources. A phone is \<^verbatim>\<open>{id, phone_number, ...}\<close>; only these two fields are read
  by the store. The field \<^verbatim>\<open>id\<close> is written \<open>phone_id\<close>.
\<close>

record Phone =
  phone_id :: string
  phone_number :: string

text \<open>
  Modelled from the spec: the declaration of \<^verbatim>\<open>~/models/user\<close> is not among the
  sources. The profile carries the reference \<^verbatim>\<open>active_phone_id\<close> to the selected
  phone, which is absent (\<open>None\<close>) while no phone is selected; it is the only field the
  store reads.
\<close>

record User =
  active_phone_id :: "string option"

text \<open>
  Modelled from the spec: the declaration of \<^verbatim>\<open>~/models/message-thread\<close> is not
  among the sources. A thread is \<^verbatim>\<open>{id, owner, contact, ...}\<close>. The fields
  \<^verbatim>\<open>id\<close> and \<^verbatim>\<open>owner\<close> are written \<open>thread_id\<close> and \<open>thread_owner\<close>, because
  the state has an \<open>owner\<close> of its own.
\<close>

record MessageThread =
  thread_id :: string
  thread_owner :: string
  contact :: string

datatype NotificationType = type_error | type_success | type_info

record Notification =
  message :: string
  timeout :: int
  active :: bool
  type :: NotificationType

record NotificationRequest =
  request_message :: string
  request_type :: NotificationType

record AuthUser =
  authUser_id :: string

text \<open>A value of type \<^verbatim>\<open>T | null\<close> is a \<open>T option\<close>, with \<open>None\<close> for \<^verbatim>\<open>null\<close>.\<close>

record State =
  owner :: "string option"
  loadingThreads :: bool
  loadingMessages :: bool
  authUser :: "AuthUser option"
  user :: "User option"
  phones :: "Phone list"
  threads :: "MessageThread list"
  threadId :: "string option"
  heartbeat :: "Heartbeat option"
  pooling :: bool
  notification :: Notification
  threadMessages :: "Message list"

definition defaultNotificationTimeout :: int where
  "defaultNotificationTimeout = 3000"

definition state :: State where
  "state = \<lparr>owner = None, loadingThreads = True, loadingMessages = True, authUser = None,
     user = None, phones = [], threads = [], threadId = None, heartbeat = None,
     pooling = False,
     notification = \<lparr>message = [], timeout = defaultNotificationTimeout, active = False,
       type = type_success\<rparr>,
     threadMessages = []\<rparr>"

text \<open>
  What an action or a getter throws: the \<^verbatim>\<open>Error\<close> of \<open>getThread\<close> with its
  message, the \<^verbatim>\<open>TypeError\<close> of reading a property of \<^verbatim>\<open>null\<close> or
  \<^verbatim>\<open>undefined\<close>, and the rejection of a request by the HTTP client. Such a
  rejection carries the body \<^verbatim>\<open>response.data.data\<close> when the service answered with
  one: for the send-message call, the validation errors
  \<^verbatim>\<open>{content?: string[], to?: string[], from?: string[]}\<close>.
\<close>

record ValidationErrors =
  content_errors :: "string list option"
  to_errors :: "string list option"
  from_errors :: "string list option"

datatype exn = Error string | TypeError | AxiosError "ValidationErrors option"

subsection \<open>Getters\<close>

definition getThreads :: "State \<Rightarrow> MessageThread list" where
  "getThreads s = threads s"

definition hasThreadId :: "State \<Rightarrow> string \<Rightarrow> bool" where
  "hasThreadId s i = (find (\<lambda>x. thread_id x = i) (threads s) \<noteq> None)"

definition getAuthUser :: "State \<Rightarrow> AuthUser option" where
  "getAuthUser s = authUser s"

definition getUser :: "State \<Rightarrow> User option" where
  "getUser s = user s"

definition getOwner :: "State \<Rightarrow> string option" where
  "getOwner s = owner s"

text \<open>
  \<^verbatim>\<open>x.phone_number === state.owner\<close> compares a string with a string or
  \<^verbatim>\<open>null\<close>: it holds when the owner is that very string.
\<close>

definition getActivePhone :: "State \<Rightarrow> Phone option" where
  "getActivePhone s = find (\<lambda>x. Some (phone_number x) = owner s) (phones s)"

definition getPhones :: "State \<Rightarrow> Phone list" where
  "getPhones s = phones s"

definition hasThread :: "State \<Rightarrow> bool" where
  "hasThread s = (threadId s \<noteq> None \<and> \<not> loadingThreads s)"

text \<open>The template string prints a \<^verbatim>\<open>null\<close> id as the four letters null.\<close>

definition getThread :: "State \<Rightarrow> exn + MessageThread" where
  "getThread s =
     (case find (\<lambda>x. Some (thread_id x) = threadId s) (threads s) of
        None \<Rightarrow> Inl (Error (''cannot find thread with id '' @
                   (case threadId s of None \<Rightarrow> ''null'' | Some i \<Rightarrow> i)))
      | Some thread \<Rightarrow> Inr thread)"

definition getLoadingThreads :: "State \<Rightarrow> bool" where
  "getLoadingThreads s = loadingThreads s"

definition getLoadingMessages :: "State \<Rightarrow> bool" where
  "getLoadingMessages s = loadingMessages s"

definition getThreadMessages :: "State \<Rightarrow> Message list" where
  "getThreadMessages s = threadMessages s"

definition getHeartbeat :: "State \<Rightarrow> Heartbeat option" where
  "getHeartbeat s = heartbeat s"

definition getPolling :: "State \<Rightarrow> bool" where
  "getPolling s = pooling s"

definition getNotification :: "State \<Rightarrow> Notification" where
  "getNotification s = notification s"

subsection \<open>Mutations\<close>

definition setThreads :: "State \<Rightarrow> MessageThread list \<Rightarrow> State" where
  "setThreads s payload = s\<lparr>threads := payload, loadingThreads := False\<rparr>"

definition setThreadId :: "State \<Rightarrow> string option \<Rightarrow> State" where
  "setThreadId s payload = s\<lparr>threadId := payload\<rparr>"

definition setThreadMessages :: "State \<Rightarrow> Message list \<Rightarrow> State" where
  "setThreadMessages s payload = s\<lparr>threadMessages := payload, loadingMessages := False\<rparr>"

definition setHeartbeat :: "State \<Rightarrow> Heartbeat option \<Rightarrow> State" where
  "setHeartbeat s payload = s\<lparr>heartbeat := payload\<rparr>"

definition setPooling :: "State \<Rightarrow> bool \<Rightarrow> State" where
  "setPooling s payload = s\<lparr>pooling := payload\<rparr>"

definition setAuthUser :: "State \<Rightarrow> AuthUser option \<Rightarrow> State" where
  "setAuthUser s payload = s\<lparr>authUser := payload\<rparr>"

text \<open>
  JavaScript numbers are IEEE-754 doubles. A finite double that is not negative is
  \<open>significand * 2 ^ exponent\<close> with a significand below \<open>2 ^ 53\<close> and an exponent
  from \<open>- 1074\<close> to \<open>971\<close>.
\<close>

record double =
  significand :: nat
  exponent :: int

definition is_double :: "double \<Rightarrow> bool" where
  "is_double x = (significand x < 2 ^ 53 \<and> - 1074 \<le> exponent x \<and> exponent x \<le> 971)"

definition double_value :: "double \<Rightarrow> real" where
  "double_value x =
     (if 0 \<le> exponent x then real (significand x) * 2 ^ nat (exponent x)
      else real (significand x) / 2 ^ nat (- exponent x))"

text \<open>The number of binary digits of \<open>n\<close>.\<close>

fun bit_length :: "nat \<Rightarrow> nat" where
  "bit_length n = (if n = 0 then 0 else Suc (bit_length (n div 2)))"

declare bit_length.simps [simp del]

text \<open>
  The product \<^verbatim>\<open>x * c\<close> of a double with a small whole number \<open>c\<close>, as the
  machine computes it: the exact product \<open>significand x * c * 2 ^ exponent x\<close> is
  rounded to 53 binary digits, to the nearest double, and to the one with the even
  significand when it lies half way between two. (The product stays far below the
  largest double here, and the exponent cannot fall below \<open>- 1074\<close>, so neither
  overflow nor the coarser grid of the subnormal numbers comes in. A significand that
  the rounding takes up to \<open>2 ^ 53\<close> stands for the same value as \<open>2 ^ 52\<close> with the
  next exponent.)
\<close>

definition double_times :: "double \<Rightarrow> nat \<Rightarrow> double" where
  "double_times x c =
     (let n = significand x * c;
          s = bit_length n - 53
      in if s = 0 then \<lparr>significand = n, exponent = exponent x\<rparr>
         else (let q = n div 2 ^ s;
                   r = n mod 2 ^ s;
                   q' = (if 2 ^ s < 2 * r \<or> (2 * r = 2 ^ s \<and> odd q) then q + 1 else q)
               in \<lparr>significand = q', exponent = exponent x + int s\<rparr>))"

text \<open>\<^verbatim>\<open>Math.floor\<close> of a double that is not negative: a whole number.\<close>

definition Math_floor :: "double \<Rightarrow> int" where
  "Math_floor x =
     (if 0 \<le> exponent x then int (significand x * 2 ^ nat (exponent x))
      else int (significand x div 2 ^ nat (- exponent x)))"

text \<open>
  \<^verbatim>\<open>Math.random()\<close> returns a double \<open>random\<close> with \<open>0 \<le> random < 1\<close>; it is an
  argument of the mutation. The sum with \<open>defaultNotificationTimeout\<close> is a sum of
  two whole numbers far below \<open>2 ^ 53\<close>, which the machine computes exactly.
\<close>

definition setNotification :: "State \<Rightarrow> NotificationRequest \<Rightarrow> double \<Rightarrow> State" where
  "setNotification s request random =
     s\<lparr>notification := (notification s)
        \<lparr>active := True,
         message := request_message request,
         type := request_type request,
         timeout := Math_floor (double_times random 100) + defaultNotificationTimeout\<rparr>\<rparr>"

definition disableNotification :: "State \<Rightarrow> State" where
  "disableNotification s = s\<lparr>notification := (notification s)\<lparr>active := False\<rparr>\<rparr>"

text \<open>
  In \<open>setPhones\<close> the phone found is an object, so \<^verbatim>\<open>!owner\<close> holds exactly
  when \<^verbatim>\<open>find\<close> found nothing; \<^verbatim>\<open>state.phones[0]\<close> is read only when the
  list is not empty.
\<close>

definition setPhones :: "State \<Rightarrow> Phone list \<Rightarrow> State" where
  "setPhones s payload =
     (let s1 = s\<lparr>phones := payload\<rparr>;
          found = find (\<lambda>x. Some (phone_number x) = owner s1) payload
      in if found = None \<and> length (phones s1) > 0
         then s1\<lparr>owner := Some (phone_number (phones s1 ! 0))\<rparr>
         else s1)"

definition setUser :: "State \<Rightarrow> User option \<Rightarrow> State" where
  "setUser s payload = s\<lparr>user := payload\<rparr>"

definition setOwner :: "State \<Rightarrow> string \<Rightarrow> State" where
  "setOwner s payload = s\<lparr>owner := Some payload, loadingThreads := True, loadingMessages := True\<rparr>"

text \<open>
  A mutation is committed by its name and payload: \<^verbatim>\<open>context.commit('setOwner', owner)\<close>.
  The number drawn by \<open>setNotification\<close> stands beside its payload.
\<close>

datatype mutation =
    SetThreads "MessageThread list"
  | SetThreadId "string option"
  | SetThreadMessages "Message list"
  | SetHeartbeat "Heartbeat option"
  | SetPooling bool
  | SetAuthUser "AuthUser option"
  | SetNotification NotificationRequest double
  | DisableNotification
  | SetPhones "Phone list"
  | SetUser "User option"
  | SetOwner string

fun commit :: "mutation \<Rightarrow> State \<Rightarrow> State" where
  "commit (SetThreads payload) s = setThreads s payload"
| "commit (SetThreadId payload) s = setThreadId s payload"
| "commit (SetThreadMessages payload) s = setThreadMessages s payload"
| "commit (SetHeartbeat payload) s = setHeartbeat s payload"
| "commit (SetPooling payload) s = setPooling s payload"
| "commit (SetAuthUser payload) s = setAuthUser s payload"
| "commit (SetNotification request random) s = setNotification s request random"
| "commit DisableNotification s = disableNotification s"
| "commit (SetPhones payload) s = setPhones s payload"
| "commit (SetUser payload) s = setUser s payload"
| "commit (SetOwner payload) s = setOwner s payload"

section \<open>Actions\<close>

subsection \<open>The remote service\<close>

record SendMessageRequest =
  msg_from :: string
  msg_to :: string
  msg_content :: string

text \<open>
  The requests the store sends through \<^verbatim>\<open>~/plugins/axios\<close>, with their parameters:
  the owner of \<open>GET_message_threads\<close>, the limit of \<open>GET_phones\<close>, the
  \<^verbatim>\<open>active_phone_id\<close> of \<open>PUT_users_me\<close>, the limit and owner of
  \<open>GET_heartbeats\<close>, the contact and owner of \<open>GET_messages\<close>.
\<close>

datatype request =
    GET_message_threads string
  | GET_phones nat
  | GET_users_me
  | PUT_users_me string
  | GET_heartbeats nat "string option"
  | POST_messages_send SendMessageRequest
  | GET_messages string string

text \<open>
  The service is outside the store. It is a parameter of every action: for each request
  it says whether the promise of the client is rejected (\<open>Inl\<close>) or fulfilled with
  \<^verbatim>\<open>response.data.data\<close> (\<open>Inr\<close>), of the shape the specification gives for
  that request. No action sends the same request twice, so one answer per request is
  enough.
\<close>

record gateway =
  message_threads :: "string \<Rightarrow> exn + MessageThread list"
  list_phones :: "nat \<Rightarrow> exn + Phone list"
  get_users_me :: "exn + User"
  put_users_me :: "string \<Rightarrow> exn + User"
  list_heartbeats :: "nat \<Rightarrow> string option \<Rightarrow> exn + Heartbeat list"
  messages_send :: "SendMessageRequest \<Rightarrow> exn + unit"
  list_messages :: "string \<Rightarrow> string \<Rightarrow> exn + Message list"

subsection \<open>Asynchronous functions\<close>

text \<open>
  The actions that other actions dispatch. \<^verbatim>\<open>context.dispatch('loadPhones')\<close> passes
  no payload: \<^verbatim>\<open>force\<close> is \<^verbatim>\<open>undefined\<close> there, and \<^verbatim>\<open>!force\<close> holds as for
  \<^verbatim>\<open>false\<close>.
\<close>

datatype action =
    LoadThreadMessages "string option"
  | LoadThreads
  | LoadUser
  | LoadPhones bool
  | SetOwnerAction string

text \<open>What an action does that can be seen from outside, in the order it happens.\<close>

datatype event = Commit mutation | Dispatch action | Request request

datatype outcome = Fulfilled | Rejected exn

text \<open>
  An \<^verbatim>\<open>async\<close> function runs until its first \<^verbatim>\<open>await\<close>, and goes on from there
  later, in a turn of its own, on the state the store has by then. A \<open>task\<close> is what is
  left of such a function: it has settled (\<open>Done\<close>), or it waits at the \<^verbatim>\<open>await\<close> of
  a value that is no pending promise, to go on with the next microtasks (\<open>Tick\<close>), or it
  waits for the answer to a request (\<open>Wait\<close>). A turn gives the new state, the events of
  the turn and the rest of the task.
\<close>

datatype task =
    Done outcome
  | Tick "State \<Rightarrow> State \<times> event list \<times> task"
  | Wait "State \<Rightarrow> State \<times> event list \<times> task"

type_synonym turn = "State \<times> event list \<times> task"

definition resolve :: "State \<Rightarrow> turn" where
  "resolve s = (s, [], Done Fulfilled)"

definition throw :: "exn \<Rightarrow> State \<Rightarrow> turn" where
  "throw e s = (s, [], Done (Rejected e))"

definition emit :: "event \<Rightarrow> turn \<Rightarrow> turn" where
  "emit ev t = (case t of (s, evs, rest) \<Rightarrow> (s, ev # evs, rest))"

text \<open>\<^verbatim>\<open>context.commit(...)\<close>, then the rest of the turn on the new state.\<close>

definition commit_then :: "mutation \<Rightarrow> (State \<Rightarrow> turn) \<Rightarrow> State \<Rightarrow> turn" where
  "commit_then m k s = emit (Commit m) (k (commit m s))"

text \<open>\<^verbatim>\<open>await\<close> of what \<^verbatim>\<open>context.commit\<close> returned (no promise).\<close>

definition await_tick :: "(State \<Rightarrow> turn) \<Rightarrow> State \<Rightarrow> turn" where
  "await_tick k s = (s, [], Tick k)"

text \<open>\<^verbatim>\<open>await axios.get(...)\<close>: the request goes out, the function waits.\<close>

definition await_request :: "request \<Rightarrow> (State \<Rightarrow> turn) \<Rightarrow> State \<Rightarrow> turn" where
  "await_request rq k s = (s, [Request rq], Wait k)"

subsection \<open>The actions with at most one request\<close>

definition loadThreads :: "gateway \<Rightarrow> State \<Rightarrow> turn" where
  "loadThreads gw s =
     (case getOwner s of
        None \<Rightarrow> commit_then (SetThreads []) (await_tick resolve) s
      | Some w \<Rightarrow>
          await_request (GET_message_threads w)
            (\<lambda>s'. case message_threads gw w of
                     Inl e \<Rightarrow> throw e s'
                   | Inr data \<Rightarrow> commit_then (SetThreads data) (await_tick resolve) s') s)"

definition loadPhones :: "gateway \<Rightarrow> bool \<Rightarrow> State \<Rightarrow> turn" where
  "loadPhones gw force s =
     (if length (getPhones s) > 0 \<and> \<not> force then resolve s
      else await_request (GET_phones 100)
             (\<lambda>s'. case list_phones gw 100 of
                      Inl e \<Rightarrow> throw e s'
                    | Inr data \<Rightarrow> commit_then (SetPhones data) resolve s') s)"

definition loadUser :: "gateway \<Rightarrow> State \<Rightarrow> turn" where
  "loadUser gw s =
     await_request GET_users_me
       (\<lambda>s'. case get_users_me gw of
                Inl e \<Rightarrow> throw e s'
              | Inr data \<Rightarrow> commit_then (SetUser (Some data)) resolve s') s"

definition getHeartbeat_action :: "gateway \<Rightarrow> State \<Rightarrow> turn" where
  "getHeartbeat_action gw s =
     await_request (GET_heartbeats 1 (getOwner s))
       (\<lambda>s'. case list_heartbeats gw 1 (getOwner s) of
                Inl e \<Rightarrow> throw e s'
              | Inr data \<Rightarrow>
                  if length data > 0 then commit_then (SetHeartbeat (Some (data ! 0))) resolve s'
                  else commit_then (SetHeartbeat None) resolve s') s"

definition setPolling :: "bool \<Rightarrow> State \<Rightarrow> turn" where
  "setPolling status s = commit_then (SetPooling status) resolve s"

definition setThreadId_action :: "string option \<Rightarrow> State \<Rightarrow> turn" where
  "setThreadId_action i s = commit_then (SetThreadId i) resolve s"

definition addNotification :: "NotificationRequest \<Rightarrow> double \<Rightarrow> State \<Rightarrow> turn" where
  "addNotification request random s = commit_then (SetNotification request random) resolve s"

definition disableNotification_action :: "State \<Rightarrow> turn" where
  "disableNotification_action s = commit_then DisableNotification resolve s"

text \<open>
  \<open>loadThreadMessages\<close> reads \<open>getThread\<close> after its first \<^verbatim>\<open>await\<close>, on the state
  of that moment; both reads of the getter are in one turn and give the same thread.
\<close>

definition loadThreadMessages :: "gateway \<Rightarrow> string option \<Rightarrow> State \<Rightarrow> turn" where
  "loadThreadMessages gw i s =
     commit_then (SetThreadId i)
       (await_tick
          (\<lambda>s1. case getThread s1 of
                   Inl e \<Rightarrow> throw e s1
                 | Inr thread \<Rightarrow>
                     await_request (GET_messages (contact thread) (thread_owner thread))
                       (\<lambda>s2. case list_messages gw (contact thread) (thread_owner thread) of
                                Inl e \<Rightarrow> throw e s2
                              | Inr data \<Rightarrow> commit_then (SetThreadMessages data) resolve s2)
                       s1)) s"

definition setOwner_action :: "gateway \<Rightarrow> string \<Rightarrow> State \<Rightarrow> turn" where
  "setOwner_action gw w s =
     commit_then (SetOwner w)
       (await_tick
          (\<lambda>s1. case getActivePhone s1 of
                   None \<Rightarrow> resolve s1
                 | Some phone \<Rightarrow>
                     await_request (PUT_users_me (phone_id phone))
                       (\<lambda>s2. case put_users_me gw (phone_id phone) of
                                Inl e \<Rightarrow> throw e s2
                              | Inr data \<Rightarrow> commit_then (SetUser (Some data)) resolve s2)
                       s1)) s"

fun handler :: "gateway \<Rightarrow> action \<Rightarrow> State \<Rightarrow> turn" where
  "handler gw (LoadThreadMessages i) = loadThreadMessages gw i"
| "handler gw LoadThreads = loadThreads gw"
| "handler gw LoadUser = loadUser gw"
| "handler gw (LoadPhones force) = loadPhones gw force"
| "handler gw (SetOwnerAction w) = setOwner_action gw w"

text \<open>\<^verbatim>\<open>context.dispatch\<close> starts the handler at once, up to its first \<^verbatim>\<open>await\<close>.\<close>

definition dispatch :: "gateway \<Rightarrow> action \<Rightarrow> State \<Rightarrow> turn" where
  "dispatch gw a s = emit (Dispatch a) (handler gw a s)"

subsection \<open>Running tasks\<close>

text \<open>
  The result of an action once nothing it started is pending any more: the state of the
  store then, every event in order, and how the promise of the action settled.
\<close>

record result =
  store :: State
  events :: "event list"
  outcome :: outcome

definition after :: "event list \<Rightarrow> result \<Rightarrow> result" where
  "after evs r = r\<lparr>events := evs @ events r\<rparr>"

definition subtask :: "(task \<times> task) set" where
  "subtask = {(t', t). \<exists>k s s' evs. (t = Tick k \<or> t = Wait k) \<and> k s = (s', evs, t')}"

lemma wf_subtask: "wf subtask"
proof (rule wfUNIVI)
  fix P :: "task \<Rightarrow> bool" and x
  assume step: "\<forall>t. (\<forall>t'. (t', t) \<in> subtask \<longrightarrow> P t') \<longrightarrow> P t"
  show "P x"
  proof (induction x)
    case (Done out)
    show ?case by (rule step[rule_format]) (simp add: subtask_def)
  next
    case (Tick k)
    show ?case
    proof (rule step[rule_format])
      fix t' assume "(t', Tick k) \<in> subtask"
      then obtain s s' evs where "k s = (s', evs, t')" by (auto simp: subtask_def)
      then have "(s', evs, t') \<in> range k" by (metis rangeI)
      then show "P t'" using Tick[of "(s', evs, t')" "(evs, t')" t'] by simp
    qed
  next
    case (Wait k)
    show ?case
    proof (rule step[rule_format])
      fix t' assume "(t', Wait k) \<in> subtask"
      then obtain s s' evs where "k s = (s', evs, t')" by (auto simp: subtask_def)
      then have "(s', evs, t') \<in> range k" by (metis rangeI)
      then show "P t'" using Wait[of "(s', evs, t')" "(evs, t')" t'] by simp
    qed
  qed
qed

lemma subtask_Tick: "k s = (s', evs, t') \<Longrightarrow> (t', Tick k) \<in> subtask"
  by (auto simp: subtask_def)

lemma subtask_Wait: "k s = (s', evs, t') \<Longrightarrow> (t', Wait k) \<in> subtask"
  by (auto simp: subtask_def)

text \<open>One task on its own: nothing else runs between its turns.\<close>

function run_task :: "task \<Rightarrow> State \<Rightarrow> result" where
  "run_task (Done out) s = \<lparr>store = s, events = [], outcome = out\<rparr>"
| "run_task (Tick k) s = (case k s of (s', evs, t) \<Rightarrow> after evs (run_task t s'))"
| "run_task (Wait k) s = (case k s of (s', evs, t) \<Rightarrow> after evs (run_task t s'))"
  by pat_completeness auto
termination
proof (relation "inv_image subtask fst")
  show "wf (inv_image subtask fst)" by (simp add: wf_subtask)
qed (auto intro: subtask_Tick subtask_Wait sym)

definition run :: "(State \<Rightarrow> turn) \<Rightarrow> State \<Rightarrow> result" where
  "run a s = (case a s of (s', evs, t) \<Rightarrow> after evs (run_task t s'))"

text \<open>
  \<^verbatim>\<open>Promise.all([a, b])\<close> of two dispatched actions. Both are started in the turn of
  the caller, \<open>a\<close> first. A task that waits at a \<open>Tick\<close> goes on before any answer to a
  request is handled, and of two such tasks the one that has waited longer goes first
  (\<open>left\<close> says that it is the first task). When both tasks wait for an answer, the
  network decides which answer comes first: that is the parameter \<open>arrival\<close>. The
  promise is rejected with the first rejection in time, which \<open>rej\<close> remembers, and
  the other task still runs to its end.
\<close>

datatype arrival = Left_first | Right_first

fun first_rejection :: "exn option \<Rightarrow> task \<Rightarrow> exn option" where
  "first_rejection (Some e) t = Some e"
| "first_rejection None (Done (Rejected e)) = Some e"
| "first_rejection None t = None"

function (sequential) all_loop ::
  "arrival \<Rightarrow> bool \<Rightarrow> task \<Rightarrow> task \<Rightarrow> exn option \<Rightarrow> State \<Rightarrow> result" where
  "all_loop ar left (Tick ka) (Tick kb) rej s =
     (if left
      then (case ka s of (s', evs, ta') \<Rightarrow>
              after evs (all_loop ar False ta' (Tick kb) (first_rejection rej ta') s'))
      else (case kb s of (s', evs, tb') \<Rightarrow>
              after evs (all_loop ar True (Tick ka) tb' (first_rejection rej tb') s')))"
| "all_loop ar left (Tick ka) tb rej s =
     (case ka s of (s', evs, ta') \<Rightarrow>
        after evs (all_loop ar False ta' tb (first_rejection rej ta') s'))"
| "all_loop ar left ta (Tick kb) rej s =
     (case kb s of (s', evs, tb') \<Rightarrow>
        after evs (all_loop ar True ta tb' (first_rejection rej tb') s'))"
| "all_loop ar left (Wait ka) (Wait kb) rej s =
     (if ar = Left_first
      then (case ka s of (s', evs, ta') \<Rightarrow>
              after evs (all_loop ar False ta' (Wait kb) (first_rejection rej ta') s'))
      else (case kb s of (s', evs, tb') \<Rightarrow>
              after evs (all_loop ar True (Wait ka) tb' (first_rejection rej tb') s')))"
| "all_loop ar left (Wait ka) (Done ob) rej s =
     (case ka s of (s', evs, ta') \<Rightarrow>
        after evs (all_loop ar False ta' (Done ob) (first_rejection rej ta') s'))"
| "all_loop ar left (Done oa) (Wait kb) rej s =
     (case kb s of (s', evs, tb') \<Rightarrow>
        after evs (all_loop ar True (Done oa) tb' (first_rejection rej tb') s'))"
| "all_loop ar left (Done oa) (Done ob) rej s =
     \<lparr>store = s, events = [],
      outcome = (case rej of None \<Rightarrow> Fulfilled | Some e \<Rightarrow> Rejected e)\<rparr>"
  by pat_completeness auto
termination
proof (relation "inv_image (subtask <*lex*> subtask) (\<lambda>(ar, left, ta, tb, rej, s). (ta, tb))")
  show "wf (inv_image (subtask <*lex*> subtask) (\<lambda>(ar, left, ta, tb, rej, s). (ta, tb)))"
    by (simp add: wf_subtask wf_lex_prod)
qed (auto intro: subtask_Tick subtask_Wait sym)

definition promise_all ::
  "arrival \<Rightarrow> (State \<Rightarrow> turn) \<Rightarrow> (State \<Rightarrow> turn) \<Rightarrow> State \<Rightarrow> result" where
  "promise_all ar a b s =
     (case a s of (s1, evs1, ta) \<Rightarrow>
        (case b s1 of (s2, evs2, tb) \<Rightarrow>
           after (evs1 @ evs2)
             (all_loop ar True ta tb (first_rejection (first_rejection None ta) tb) s2)))"

subsection \<open>The actions that dispatch other actions\<close>

text \<open>
  \<open>sendMessage\<close> reads \<^verbatim>\<open>context.getters.getThread.id\<close> while it builds the array
  for \<^verbatim>\<open>Promise.all\<close>, before it dispatches anything: when the getter throws, the
  action is rejected with no reload dispatched.
\<close>

definition sendMessage :: "gateway \<Rightarrow> arrival \<Rightarrow> SendMessageRequest \<Rightarrow> State \<Rightarrow> result" where
  "sendMessage gw ar request s =
     after [Request (POST_messages_send request)]
       (case messages_send gw request of
          Inl e \<Rightarrow> \<lparr>store = s, events = [], outcome = Rejected e\<rparr>
        | Inr _ \<Rightarrow>
            (case getThread s of
               Inl e \<Rightarrow> \<lparr>store = s, events = [], outcome = Rejected e\<rparr>
             | Inr thread \<Rightarrow>
                 promise_all ar
                   (dispatch gw (LoadThreadMessages (Some (thread_id thread))))
                   (dispatch gw LoadThreads) s))"

text \<open>
  In \<open>setAuthUser_action\<close>, \<^verbatim>\<open>user?.id\<close> of \<^verbatim>\<open>null\<close> is \<^verbatim>\<open>undefined\<close>, which
  differs from every string and equals itself. The callback of \<^verbatim>\<open>find\<close> reads
  \<^verbatim>\<open>getUser.active_phone_id\<close> once per phone: with a phone and no profile it throws.
\<close>

definition preferred_phone :: "State \<Rightarrow> exn + Phone option" where
  "preferred_phone s =
     (case getPhones s of
        [] \<Rightarrow> Inr None
      | x # xs \<Rightarrow>
          (case getUser s of
             None \<Rightarrow> Inl TypeError
           | Some u \<Rightarrow> Inr (find (\<lambda>x. Some (phone_id x) = active_phone_id u) (getPhones s))))"

definition setAuthUser_action :: "gateway \<Rightarrow> arrival \<Rightarrow> AuthUser option \<Rightarrow> State \<Rightarrow> result" where
  "setAuthUser_action gw ar u s =
     (let userChanged = (map_option authUser_id u \<noteq> map_option authUser_id (getAuthUser s));
          s1 = commit (SetAuthUser u) s
      in after [Commit (SetAuthUser u)]
           (if userChanged \<and> u \<noteq> None
            then (let r = promise_all ar (dispatch gw LoadUser) (dispatch gw (LoadPhones False)) s1
                  in case outcome r of
                       Rejected e \<Rightarrow> r
                     | Fulfilled \<Rightarrow>
                         (case preferred_phone (store r) of
                            Inl e \<Rightarrow> r\<lparr>outcome := Rejected e\<rparr>
                          | Inr None \<Rightarrow> r
                          | Inr (Some phone) \<Rightarrow>
                              after (events r)
                                (run (dispatch gw (SetOwnerAction (phone_number phone))) (store r))))
            else \<lparr>store = s1, events = [], outcome = Fulfilled\<rparr>))"

section \<open>The page for a new message (web/pages/messages/index.vue)\<close>

text \<open>
  \<^verbatim>\<open>x.replace(pattern, replacement)\<close> with a string pattern: the first occurrence of
  the pattern in \<open>x\<close> is replaced, and \<open>x\<close> is returned as it is when there is none. (The
  replacement used here has no dollar sign, so it is inserted literally.)
\<close>

fun replace :: "string \<Rightarrow> string \<Rightarrow> string \<Rightarrow> string" where
  "replace [] pattern replacement = (if pattern = [] then replacement else [])"
| "replace (c # cs) pattern replacement =
     (if prefix pattern (c # cs) then replacement @ drop (length pattern) (c # cs)
      else c # replace cs pattern replacement)"

text \<open>The data of the component; \<open>errors\<close> is its \<^verbatim>\<open>Map\<close> from field names to messages.\<close>

record MessagesIndex =
  sending :: bool
  formPhoneNumber :: string
  formContent :: string
  errors :: "string \<rightharpoonup> string list"

text \<open>
  What the method does outside the component: the request with its fields
  \<^verbatim>\<open>to\<close>, \<^verbatim>\<open>from\<close> (the owner getter, which may be \<^verbatim>\<open>null\<close>) and \<^verbatim>\<open>content\<close>, the
  dispatch of \<open>addNotification\<close> with its message and type, and the navigation. The
  page is plain JavaScript: the message it passes is \<^verbatim>\<open>from[0]\<close>, which is
  \<^verbatim>\<open>undefined\<close> (\<open>None\<close>) for an empty array.
\<close>

datatype page_event =
    Post_messages_send string "string option" string
  | Store_addNotification "string option" NotificationType
  | Router_push string

text \<open>
  The handler of \<^verbatim>\<open>.catch\<close>. A field of the body that is present is an array, which
  is truthy even when empty. An error without the body \<^verbatim>\<open>response.data.data\<close> makes
  the handler itself throw.
\<close>

definition sendMessage_catch :: "exn \<Rightarrow> exn + (string \<rightharpoonup> string list) \<times> page_event list" where
  "sendMessage_catch axiosError =
     (case axiosError of
        AxiosError (Some d) \<Rightarrow>
          (let errors0 = Map.empty;
               errors1 = (case content_errors d of
                            None \<Rightarrow> errors0
                          | Some c \<Rightarrow> errors0(''content'' \<mapsto> c));
               errors2 = (case to_errors d of
                            None \<Rightarrow> errors1
                          | Some t \<Rightarrow>
                              errors1(''to'' \<mapsto>
                                map (\<lambda>x. replace x ''to field'' ''phone number field'') t));
               dispatched = (case from_errors d of
                               None \<Rightarrow> []
                             | Some f \<Rightarrow>
                                 [Store_addNotification
                                    (case f of [] \<Rightarrow> None | x # xs \<Rightarrow> Some x) type_error])
           in Inr (errors2, dispatched))
      | _ \<Rightarrow> Inl TypeError)"

text \<open>
  The method \<^verbatim>\<open>sendMessage\<close> of the page, from the click to the end of
  \<^verbatim>\<open>.finally\<close>; \<open>answer\<close> is how the promise of the request settles.
\<close>

definition MessagesIndex_sendMessage ::
  "State \<Rightarrow> exn + unit \<Rightarrow> MessagesIndex \<Rightarrow> MessagesIndex \<times> page_event list \<times> outcome" where
  "MessagesIndex_sendMessage s answer c =
     (let c1 = c\<lparr>errors := Map.empty, sending := True\<rparr>;
          post = Post_messages_send (formPhoneNumber c1) (getOwner s) (formContent c1)
      in case answer of
           Inr _ \<Rightarrow>
             (c1\<lparr>sending := False\<rparr>,
              [post, Store_addNotification (Some ''Message Sent!'') type_success,
               Router_push ''threads''],
              Fulfilled)
         | Inl axiosError \<Rightarrow>
             (case sendMessage_catch axiosError of
                Inl e \<Rightarrow> (c1\<lparr>sending := False\<rparr>, [post], Rejected e)
              | Inr (errs, dispatched) \<Rightarrow>
                  (c1\<lparr>errors := errs, sending := False\<rparr>, post # dispatched, Fulfilled)))"

section \<open>Example values\<close>

text \<open>
  A user with two phones, of which the profile prefers the second, and one thread; a
  service that answers every request with these.
\<close>

definition demo_phones :: "Phone list" where
  "demo_phones = [\<lparr>phone_id = ''1'', phone_number = ''+1A''\<rparr>,
     \<lparr>phone_id = ''2'', phone_number = ''+1B''\<rparr>]"

definition demo_threads :: "MessageThread list" where
  "demo_threads = [\<lparr>thread_id = ''a'', thread_owner = ''+1B'', contact = ''+2''\<rparr>]"

definition demo_gateway :: gateway where
  "demo_gateway =
     \<lparr>message_threads = (\<lambda>w. Inr demo_threads),
      list_phones = (\<lambda>limit. Inr demo_phones),
      get_users_me = Inr \<lparr>active_phone_id = Some ''2''\<rparr>,
      put_users_me = (\<lambda>i. Inr \<lparr>active_phone_id = Some i\<rparr>),
      list_heartbeats = (\<lambda>limit w. Inr []),
      messages_send = (\<lambda>request. Inr ()),
      list_messages = (\<lambda>c w. Inr [])\<rparr>"

definition demo_request :: SendMessageRequest where
  "demo_request = \<lparr>msg_from = ''+1B'', msg_to = ''+2'', msg_content = ''hi''\<rparr>"

definition demo_state :: State where
  "demo_state = state\<lparr>owner := Some ''+1B'', phones := demo_phones, threads := demo_threads,
     threadId := Some ''a''\<rparr>"

definition demo_user :: "AuthUser option" where
  "demo_user = Some \<lparr>authUser_id = ''u1''\<rparr>"

definition demo_errors :: ValidationErrors where
  "demo_errors = \<lparr>content_errors = None,
     to_errors = Some [''The to field is required'', ''bad''],
     from_errors = Some [''The from field is not a phone number'']\<rparr>"

definition demo_page :: MessagesIndex where
  "demo_page = \<lparr>sending = False, formPhoneNumber = ''+2'', formContent = ''hi'',
     errors = Map.empty\<rparr>"

section \<open>Properties of the mutations and getters\<close>

lemma find_None_set: "(find P xs = None) = (\<forall>x\<in>set xs. \<not> P x)"
  by (induction xs) auto

lemma find_Some_set: "find P xs = Some x \<Longrightarrow> x \<in> set xs \<and> P x"
  by (induction xs) (auto split: if_splits)

text \<open>
  Claim C1. After \<open>setPhones\<close> with the phones \<open>P\<close>: when a phone of \<open>P\<close> has the
  owner's number, the owner stays; when none has and \<open>P\<close> is not empty, the owner is
  the number of the first phone of \<open>P\<close>; when \<open>P\<close> is empty, the owner stays. The prior
  owner may be \<^verbatim>\<open>null\<close>, which no phone number equals.
\<close>

theorem setPhones_owner:
  "((\<exists>x\<in>set P. Some (phone_number x) = owner s) \<longrightarrow> owner (setPhones s P) = owner s) \<and>
   ((\<forall>x\<in>set P. Some (phone_number x) \<noteq> owner s) \<and> P \<noteq> [] \<longrightarrow>
      owner (setPhones s P) = Some (phone_number (P ! 0))) \<and>
   (P = [] \<longrightarrow> owner (setPhones s P) = owner s) \<and>
   phones (setPhones s P) = P"
proof -
  let ?found = "find (\<lambda>x. Some (phone_number x) = owner s) P"
  have none: "(?found = None) = (\<forall>x\<in>set P. Some (phone_number x) \<noteq> owner s)"
    by (simp add: find_None_set)
  have a: "(\<exists>x\<in>set P. Some (phone_number x) = owner s) \<longrightarrow> owner (setPhones s P) = owner s"
    using none by (auto simp: setPhones_def Let_def)
  have b: "(\<forall>x\<in>set P. Some (phone_number x) \<noteq> owner s) \<and> P \<noteq> [] \<longrightarrow>
      owner (setPhones s P) = Some (phone_number (P ! 0))"
    using none by (auto simp: setPhones_def Let_def)
  have c: "P = [] \<longrightarrow> owner (setPhones s P) = owner s"
    by (simp add: setPhones_def Let_def)
  have d: "phones (setPhones s P) = P"
    by (simp add: setPhones_def Let_def)
  from a b c d show ?thesis by blast
qed

text \<open>
  The scenario of the specification (two phones, the owner is the second one's number),
  a first load from the initial state, and an empty answer.
\<close>

theorem setPhones_owner_witness:
  "owner (setPhones (state\<lparr>owner := Some ''+1B''\<rparr>)
      [\<lparr>phone_id = ''1'', phone_number = ''+1A''\<rparr>, \<lparr>phone_id = ''2'', phone_number = ''+1B''\<rparr>])
     = Some ''+1B'' \<and>
   owner (setPhones state
      [\<lparr>phone_id = ''1'', phone_number = ''+1A''\<rparr>, \<lparr>phone_id = ''2'', phone_number = ''+1B''\<rparr>])
     = Some ''+1A'' \<and>
   owner (setPhones (state\<lparr>owner := Some ''+1B''\<rparr>) []) = Some ''+1B''"
  using setPhones_owner [of "[\<lparr>phone_id = ''1'', phone_number = ''+1A''\<rparr>,
      \<lparr>phone_id = ''2'', phone_number = ''+1B''\<rparr>]" "state\<lparr>owner := Some ''+1B''\<rparr>"]
    setPhones_owner [of "[\<lparr>phone_id = ''1'', phone_number = ''+1A''\<rparr>,
      \<lparr>phone_id = ''2'', phone_number = ''+1B''\<rparr>]" state]
    setPhones_owner [of "[]" "state\<lparr>owner := Some ''+1B''\<rparr>"]
  by (simp add: state_def)

text \<open>
  Claim C2. \<open>getThread\<close> fails, with the error that names the id, exactly when no thread
  of the collection has the current \<open>threadId\<close>; a thread it returns is the first one
  of the collection with that id; and after \<open>setThreadId\<close> with an id that some thread
  of the collection has, \<open>getThread\<close> returns a thread of the collection with that id.
\<close>

theorem getThread_spec:
  "((\<exists>e. getThread s = Inl e) = (\<forall>x\<in>set (threads s). Some (thread_id x) \<noteq> threadId s)) \<and>
   ((\<forall>x\<in>set (threads s). Some (thread_id x) \<noteq> threadId s) \<longrightarrow>
      getThread s = Inl (Error (''cannot find thread with id '' @
        (case threadId s of None \<Rightarrow> ''null'' | Some i \<Rightarrow> i)))) \<and>
   (getThread s = Inr t \<longrightarrow>
      (\<exists>n<length (threads s). threads s ! n = t \<and> Some (thread_id t) = threadId s \<and>
         (\<forall>m<n. Some (thread_id (threads s ! m)) \<noteq> threadId s))) \<and>
   (i \<in> thread_id ` set (threads s) \<longrightarrow>
      (\<exists>x. getThread (setThreadId s (Some i)) = Inr x \<and> thread_id x = i \<and> x \<in> set (threads s)))"
proof -
  have a: "(\<exists>e. getThread s = Inl e) = (\<forall>x\<in>set (threads s). Some (thread_id x) \<noteq> threadId s)"
    by (auto simp: getThread_def find_None_set split: option.splits dest: find_Some_set)
  have b: "(\<forall>x\<in>set (threads s). Some (thread_id x) \<noteq> threadId s) \<longrightarrow>
      getThread s = Inl (Error (''cannot find thread with id '' @
        (case threadId s of None \<Rightarrow> ''null'' | Some i \<Rightarrow> i)))"
    by (auto simp: getThread_def find_None_set split: option.splits dest: find_Some_set)
  have c: "getThread s = Inr t \<longrightarrow>
      (\<exists>n<length (threads s). threads s ! n = t \<and> Some (thread_id t) = threadId s \<and>
         (\<forall>m<n. Some (thread_id (threads s ! m)) \<noteq> threadId s))"
    by (auto simp: getThread_def find_Some_iff split: option.splits)
  have d: "i \<in> thread_id ` set (threads s) \<longrightarrow>
      (\<exists>x. getThread (setThreadId s (Some i)) = Inr x \<and> thread_id x = i \<and> x \<in> set (threads s))"
  proof
    assume "i \<in> thread_id ` set (threads s)"
    then have "find (\<lambda>x. thread_id x = i) (threads s) \<noteq> None"
      by (auto simp: find_None_set)
    then obtain x where x: "find (\<lambda>x. thread_id x = i) (threads s) = Some x" by auto
    then have "thread_id x = i \<and> x \<in> set (threads s)" by (auto dest: find_Some_set)
    with x show "\<exists>x. getThread (setThreadId s (Some i)) = Inr x \<and> thread_id x = i \<and>
        x \<in> set (threads s)"
      by (simp add: getThread_def setThreadId_def)
  qed
  from a b c d show ?thesis by blast
qed

text \<open>No thread and no id; two threads and the id of the second; two threads and an id of neither.\<close>

theorem getThread_spec_witness:
  "getThread state = Inl (Error ''cannot find thread with id null'') \<and>
   getThread (setThreadId
      (state\<lparr>threads := [\<lparr>thread_id = ''a'', thread_owner = ''+1A'', contact = ''+2''\<rparr>,
          \<lparr>thread_id = ''b'', thread_owner = ''+1A'', contact = ''+3''\<rparr>]\<rparr>) (Some ''b''))
     = Inr \<lparr>thread_id = ''b'', thread_owner = ''+1A'', contact = ''+3''\<rparr> \<and>
   getThread (setThreadId
      (state\<lparr>threads := [\<lparr>thread_id = ''a'', thread_owner = ''+1A'', contact = ''+2''\<rparr>,
          \<lparr>thread_id = ''b'', thread_owner = ''+1A'', contact = ''+3''\<rparr>]\<rparr>) (Some ''c''))
     = Inl (Error ''cannot find thread with id c'')"
  using getThread_spec [of state]
    getThread_spec [of "state\<lparr>threads := [\<lparr>thread_id = ''a'', thread_owner = ''+1A'', contact = ''+2''\<rparr>,
          \<lparr>thread_id = ''b'', thread_owner = ''+1A'', contact = ''+3''\<rparr>]\<rparr>" _ "''b''"]
    getThread_spec [of "setThreadId (state\<lparr>threads := [\<lparr>thread_id = ''a'', thread_owner = ''+1A'', contact = ''+2''\<rparr>,
          \<lparr>thread_id = ''b'', thread_owner = ''+1A'', contact = ''+3''\<rparr>]\<rparr>) (Some ''c'')"]
  by (simp add: state_def setThreadId_def getThread_def)

text \<open>
  Claim C6. Whatever the two loading flags were, the mutation \<open>setOwner\<close> leaves both
  true and the owner equal to its payload; so does committing it by name.
\<close>

theorem setOwner_rearms:
  "loadingThreads (setOwner (s\<lparr>loadingThreads := a, loadingMessages := b\<rparr>) w) \<and>
   loadingMessages (setOwner (s\<lparr>loadingThreads := a, loadingMessages := b\<rparr>) w) \<and>
   owner (setOwner (s\<lparr>loadingThreads := a, loadingMessages := b\<rparr>) w) = Some w \<and>
   loadingThreads (commit (SetOwner w) s) \<and> loadingMessages (commit (SetOwner w) s) \<and>
   owner (commit (SetOwner w) s) = Some w"
  by (simp add: setOwner_def)

lemma commit_owner_cases:
  "owner (commit m s) = owner s \<or> (\<exists>w. m = SetOwner w \<and> owner (commit m s) = Some w) \<or>
     (\<exists>P. m = SetPhones P \<and> P \<noteq> [] \<and> owner (commit m s) = Some (phone_number (P ! 0)))"
  by (cases m)
    (auto simp: setThreads_def setThreadId_def setThreadMessages_def setHeartbeat_def
      setPooling_def setAuthUser_def setNotification_def disableNotification_def
      setPhones_def setUser_def setOwner_def Let_def)

text \<open>
  Claim C10. The owner is \<^verbatim>\<open>null\<close> in the initial state; a mutation never takes an
  owner that is a string back to \<^verbatim>\<open>null\<close>; and a mutation that changes the owner is
  \<open>setOwner\<close>, which writes its payload, or \<open>setPhones\<close> with a list that is not empty,
  which writes the number of the first phone.
\<close>

theorem owner_never_reverts:
  "owner state = None \<and>
   (owner s \<noteq> None \<longrightarrow> owner (commit m s) \<noteq> None) \<and>
   (owner (commit m s) \<noteq> owner s \<longrightarrow>
      (\<exists>w. m = SetOwner w \<and> owner (commit m s) = Some w) \<or>
      (\<exists>P. m = SetPhones P \<and> P \<noteq> [] \<and> owner (commit m s) = Some (phone_number (P ! 0))))"
proof -
  have a: "owner state = None" by (simp add: state_def)
  have b: "owner s \<noteq> None \<longrightarrow> owner (commit m s) \<noteq> None"
    using commit_owner_cases [of m s] by auto
  have c: "owner (commit m s) \<noteq> owner s \<longrightarrow>
      (\<exists>w. m = SetOwner w \<and> owner (commit m s) = Some w) \<or>
      (\<exists>P. m = SetPhones P \<and> P \<noteq> [] \<and> owner (commit m s) = Some (phone_number (P ! 0)))"
    using commit_owner_cases [of m s] by blast
  from a b c show ?thesis by blast
qed

theorem owner_never_reverts_witness:
  "owner (commit (SetPhones [\<lparr>phone_id = ''1'', phone_number = ''+1A''\<rparr>])
      (state\<lparr>owner := Some ''+1B''\<rparr>)) = Some ''+1A'' \<and>
   owner (commit DisableNotification (state\<lparr>owner := Some ''+1B''\<rparr>)) = Some ''+1B'' \<and>
   owner (commit (SetOwner ''+1C'') state) = Some ''+1C''"
  using owner_never_reverts [of "state\<lparr>owner := Some ''+1B''\<rparr>"
      "SetPhones [\<lparr>phone_id = ''1'', phone_number = ''+1A''\<rparr>]"]
    owner_never_reverts [of "state\<lparr>owner := Some ''+1B''\<rparr>" DisableNotification]
    owner_never_reverts [of state "SetOwner ''+1C''"]
  by (simp add: state_def setPhones_def disableNotification_def setOwner_def)

section \<open>Properties of the actions\<close>

lemmas turn_defs = resolve_def throw_def emit_def commit_then_def await_tick_def
  await_request_def run_def after_def dispatch_def promise_all_def

lemma bit_length_le: "n < 2 ^ k \<Longrightarrow> bit_length n \<le> k"
proof (induction n arbitrary: k rule: bit_length.induct)
  case (1 n)
  show ?case
  proof (cases "n = 0")
    case True
    then show ?thesis by (simp add: bit_length.simps)
  next
    case False
    then obtain j where k: "k = Suc j" using "1.prems" by (cases k) auto
    then have "n div 2 < 2 ^ j" using "1.prems" by auto
    then have "bit_length (n div 2) \<le> j" using "1.IH" False by blast
    then show ?thesis using False k by (simp add: bit_length.simps [of n])
  qed
qed

lemma bit_length_lower: "0 < n \<Longrightarrow> 2 ^ (bit_length n - 1) \<le> n"
proof (induction n rule: bit_length.induct)
  case (1 n)
  show ?case
  proof (cases "n div 2 = 0")
    case True
    then have "bit_length n = 1" using "1.prems" by (simp add: bit_length.simps [of n] bit_length.simps [of 0])
    then show ?thesis using "1.prems" by simp
  next
    case False
    then have ih: "2 ^ (bit_length (n div 2) - 1) \<le> n div 2" using "1.IH" "1.prems" by simp
    have pos: "0 < bit_length (n div 2)" using False by (simp add: bit_length.simps [of "n div 2"])
    have "bit_length n = Suc (bit_length (n div 2))" using "1.prems" by (simp add: bit_length.simps [of n])
    then have "(2::nat) ^ (bit_length n - 1) = 2 * 2 ^ (bit_length (n div 2) - 1)"
      using pos by (cases "bit_length (n div 2)") simp_all
    also have "\<dots> \<le> 2 * (n div 2)" using ih by simp
    also have "\<dots> \<le> n" by simp
    finally show ?thesis .
  qed
qed

lemma bit_length_eq: "2 ^ k \<le> n \<Longrightarrow> n < 2 ^ Suc k \<Longrightarrow> bit_length n = Suc k"
proof -
  assume a: "2 ^ k \<le> n" and b: "n < 2 ^ Suc k"
  have "bit_length n \<le> Suc k" using b by (rule bit_length_le)
  moreover have "\<not> bit_length n \<le> k"
  proof
    assume c: "bit_length n \<le> k"
    have "n < 2 ^ bit_length n"
    proof (induction n rule: bit_length.induct)
      case (1 n)
      show ?case
      proof (cases "n = 0")
        case True then show ?thesis by simp
      next
        case False
        then have "n div 2 < 2 ^ bit_length (n div 2)" using "1.IH" by simp
        then have "n < 2 * 2 ^ bit_length (n div 2)" by auto
        then show ?thesis using False by (simp add: bit_length.simps [of n])
      qed
    qed
    also have "\<dots> \<le> (2::nat) ^ k" using c by (simp add: power_increasing)
    finally show False using a by simp
  qed
  ultimately show ?thesis by simp
qed

lemma round_up_bound:
  fixes n s :: nat
  defines "q \<equiv> n div 2 ^ s" and "r \<equiv> n mod 2 ^ s"
  defines "q' \<equiv> (if 2 ^ s < 2 * r \<or> (2 * r = 2 ^ s \<and> odd q) then q + 1 else q)"
  shows "q \<le> q' \<and> 2 * (q' * 2 ^ s) \<le> 2 * n + 2 ^ s"
proof -
  have n: "n = q * 2 ^ s + r" unfolding q_def r_def by (rule div_mult_mod_eq [symmetric])
  have "q' = q \<or> (q' = q + 1 \<and> 2 ^ s \<le> 2 * r)" by (auto simp: q'_def)
  then show ?thesis
  proof
    assume "q' = q"
    then show ?thesis using n by simp
  next
    assume "q' = q + 1 \<and> 2 ^ s \<le> 2 * r"
    then show ?thesis using n by (simp add: algebra_simps)
  qed
qed

lemma times_100_cases:
  assumes m0: "0 < m" and m53: "m < 2 ^ 53" and mk: "m < 2 ^ k"
  shows "\<exists>a j. double_times \<lparr>significand = m, exponent = - int k\<rparr> 100 =
             \<lparr>significand = a, exponent = - int j\<rparr> \<and>
           0 < j \<and> a < 100 * 2 ^ j \<and>
           (\<forall>N. N * 2 ^ k \<le> 100 * m \<longrightarrow> N * 2 ^ j \<le> a) \<and>
           real a / 2 ^ j \<le> real (100 * m) / 2 ^ k + 1 / 2 ^ 47"
proof (cases "bit_length (m * 100) - 53 = 0")
  case True
  have k0: "0 < k" using m0 mk by (cases k) auto
  have "double_times \<lparr>significand = m, exponent = - int k\<rparr> 100 =
      \<lparr>significand = 100 * m, exponent = - int k\<rparr>"
    using True by (simp add: double_times_def Let_def mult.commute)
  moreover have "100 * m < 100 * 2 ^ k" using mk by simp
  ultimately show ?thesis using k0 by (intro exI [of _ "100 * m"] exI [of _ k]) simp
next
  case False
  define n where "n = m * 100"
  define s where "s = bit_length n - 53"
  define q where "q = n div 2 ^ s"
  define r where "r = n mod 2 ^ s"
  define q' where "q' = (if 2 ^ s < 2 * r \<or> (2 * r = 2 ^ s \<and> odd q) then q + 1 else q)"
  have s0: "0 < s" using False by (simp add: s_def n_def)
  have L: "bit_length n = s + 53" using s0 by (simp add: s_def)
  have n0: "0 < n" using m0 by (simp add: n_def)
  have nk: "n + 100 \<le> 100 * 2 ^ k" using mk by (simp add: n_def)
  have "n < 2 ^ 60" using m53 by (simp add: n_def)
  then have "bit_length n \<le> 60" by (rule bit_length_le)
  then have s7: "s \<le> 7" using L by simp
  have low: "2 ^ (s + 52) \<le> n" using bit_length_lower [OF n0] L by (simp add: add.commute)
  have sk: "s + 46 \<le> k"
  proof (rule ccontr)
    assume "\<not> s + 46 \<le> k"
    then have "k + 7 \<le> s + 52" by simp
    then have "(2::nat) ^ (k + 7) \<le> 2 ^ (s + 52)" by (rule power_increasing) simp
    then have "(2::nat) ^ (k + 7) \<le> n" using low by (rule order_trans)
    moreover have "n < 128 * 2 ^ k" using nk by simp
    ultimately show False by (simp add: power_add)
  qed
  define j where "j = k - s"
  have j46: "46 \<le> j" using sk by (simp add: j_def)
  have kj: "(2::nat) ^ k = 2 ^ j * 2 ^ s" using sk by (simp add: j_def flip: power_add)
  have rb: "q \<le> q' \<and> 2 * (q' * 2 ^ s) \<le> 2 * n + 2 ^ s"
    unfolding q'_def q_def r_def by (rule round_up_bound)
  have s128: "(2::nat) ^ s \<le> 2 ^ 7" using s7 by (rule power_increasing) simp
  have res: "double_times \<lparr>significand = m, exponent = - int k\<rparr> 100 =
      \<lparr>significand = q', exponent = - int j\<rparr>"
    using s0 sk by (simp add: double_times_def Let_def q'_def q_def r_def s_def n_def j_def)
  have lt: "q' < 100 * 2 ^ j"
  proof -
    have "2 * (q' * 2 ^ s) < 2 * (100 * 2 ^ k)" using rb nk s128 by simp
    then have "q' * 2 ^ s < (100 * 2 ^ j) * 2 ^ s" by (simp add: kj)
    then show ?thesis by simp
  qed
  have mono: "\<forall>N. N * 2 ^ k \<le> 100 * m \<longrightarrow> N * 2 ^ j \<le> q'"
  proof (intro allI impI)
    fix N assume "N * 2 ^ k \<le> 100 * m"
    then have "(N * 2 ^ j) * 2 ^ s \<le> n" by (simp add: kj n_def ac_simps)
    then have "N * 2 ^ j \<le> n div 2 ^ s" by (simp add: less_eq_div_iff_mult_less_eq)
    then show "N * 2 ^ j \<le> q'" using rb by (simp add: q_def)
  qed
  have near: "real q' / 2 ^ j \<le> real (100 * m) / 2 ^ k + 1 / 2 ^ 47"
  proof -
    have "real (2 * (q' * 2 ^ s)) \<le> real (2 * n + 2 ^ s)" using rb by (simp only: of_nat_le_iff)
    then have a: "real q' * 2 ^ s \<le> real n + 2 ^ s / 2" by simp
    have "real q' / 2 ^ j = (real q' * 2 ^ s) / 2 ^ k"
      using kj by (simp add: field_simps) (metis of_nat_numeral of_nat_power of_nat_mult mult.commute)
    also have "\<dots> \<le> (real n + 2 ^ s / 2) / 2 ^ k" using a by (simp add: divide_right_mono)
    also have "\<dots> = real n / 2 ^ k + 1 / (2 * 2 ^ j)"
      using kj by (simp add: field_simps) (metis of_nat_numeral of_nat_power of_nat_mult mult.commute)
    also have "\<dots> \<le> real n / 2 ^ k + 1 / 2 ^ 47"
    proof -
      have "(2::real) ^ 47 \<le> 2 * 2 ^ j" using j46 power_increasing [of 46 j "2::real"] by simp
      then have "1 / (2 * 2 ^ j) \<le> 1 / (2::real) ^ 47" by (simp add: field_simps)
      then show ?thesis by simp
    qed
    finally show ?thesis by (simp add: n_def mult.commute)
  qed
  have "0 < j" using j46 by simp
  then show ?thesis using res lt mono near by blast
qed

lemma Math_floor_times_100:
  assumes d: "is_double u" and lt: "double_value u < 1"
  shows "0 \<le> Math_floor (double_times u 100) \<and> Math_floor (double_times u 100) < 100 \<and>
    real_of_int (Math_floor (double_times u 100)) - 1 / 2 ^ 47 \<le> 100 * double_value u \<and>
    100 * double_value u < real_of_int (Math_floor (double_times u 100)) + 1"
proof (cases "significand u = 0")
  case True
  then have "double_times u 100 = \<lparr>significand = 0, exponent = exponent u\<rparr>"
    by (simp add: double_times_def bit_length.simps [of 0])
  moreover have "double_value u = 0" using True by (simp add: double_value_def)
  ultimately show ?thesis by (simp add: Math_floor_def)
next
  case False
  define m where "m = significand u"
  define k where "k = nat (- exponent u)"
  have m0: "0 < m" using False by (simp add: m_def)
  have m53: "m < 2 ^ 53" using d by (simp add: is_double_def m_def)
  have neg: "exponent u < 0"
  proof (rule ccontr)
    assume "\<not> exponent u < 0"
    then have "double_value u = real m * 2 ^ nat (exponent u)"
      by (simp add: double_value_def m_def)
    moreover have "(1::real) * 1 \<le> real m * 2 ^ nat (exponent u)"
      by (rule mult_mono) (use m0 in simp_all)
    ultimately show False using lt by simp
  qed
  then have v: "double_value u = real m / 2 ^ k"
    by (simp add: double_value_def m_def k_def)
  have mk: "m < 2 ^ k"
  proof -
    have "real m < 2 ^ k" using lt v by (simp add: field_simps)
    then have "real m < real (2 ^ k)" by simp
    then show ?thesis by (simp only: of_nat_less_iff)
  qed
  have u: "u = \<lparr>significand = m, exponent = - int k\<rparr>"
    using neg by (simp add: m_def k_def)
  obtain a j where r: "double_times u 100 = \<lparr>significand = a, exponent = - int j\<rparr>"
    and j0: "0 < j" and a100: "a < 100 * 2 ^ j"
    and mono: "\<forall>N. N * 2 ^ k \<le> 100 * m \<longrightarrow> N * 2 ^ j \<le> a"
    and near: "real a / 2 ^ j \<le> real (100 * m) / 2 ^ k + 1 / 2 ^ 47"
    using times_100_cases [OF m0 m53 mk] u by auto
  have f: "Math_floor (double_times u 100) = int (a div 2 ^ j)"
    using j0 by (simp add: r Math_floor_def)
  have x: "100 * double_value u = real (100 * m) / 2 ^ k" by (simp add: v)
  have hi: "a div 2 ^ j < 100"
    using a100 by (simp add: less_mult_imp_div_less)
  have "real (a div 2 ^ j) \<le> real a / real (2 ^ j)" by (rule of_nat_div_le_of_nat)
  then have lo: "real (a div 2 ^ j) - 1 / 2 ^ 47 \<le> real (100 * m) / 2 ^ k"
    using near by simp
  have up: "real (100 * m) / 2 ^ k < real (a div 2 ^ j) + 1"
  proof (rule ccontr)
    assume "\<not> real (100 * m) / 2 ^ k < real (a div 2 ^ j) + 1"
    then have "real (a div 2 ^ j + 1) \<le> real (100 * m) / 2 ^ k" by simp
    then have "real (a div 2 ^ j + 1) * 2 ^ k \<le> real (100 * m)"
      by (simp only: pos_le_divide_eq [of "2 ^ k", simplified])
    moreover have "real ((a div 2 ^ j + 1) * 2 ^ k) = real (a div 2 ^ j + 1) * 2 ^ k"
      by (simp only: of_nat_mult of_nat_power of_nat_numeral)
    ultimately have "real ((a div 2 ^ j + 1) * 2 ^ k) \<le> real (100 * m)" by (simp only:)
    then have "(a div 2 ^ j + 1) * 2 ^ k \<le> 100 * m" by (simp only: of_nat_le_iff)
    then have "(a div 2 ^ j + 1) * 2 ^ j \<le> a" using mono by blast
    then have "a div 2 ^ j + 1 \<le> a div 2 ^ j" by (simp add: less_eq_div_iff_mult_less_eq)
    then show False by simp
  qed
  show ?thesis using hi lo up by (simp add: f x)
qed

lemma addNotification_run:
  "run (addNotification r u) s =
     \<lparr>store = setNotification s r u, events = [Commit (SetNotification r u)], outcome = Fulfilled\<rparr>"
  by (simp add: addNotification_def turn_defs)

text \<open>
  Claim C7. For a double \<open>u\<close> drawn in \<open>[0, 1)\<close>, \<open>setNotification\<close> leaves the
  notification active, with the message and type of the request and with the timeout
  \<open>defaultNotificationTimeout + d\<close>, where \<open>d\<close> is the floor of the machine product
  \<open>u * 100\<close>: a whole number in \<open>[0, 100)\<close>. The draws are shared out among the
  hundred values as evenly as the rounding of the product allows: \<open>d\<close> is drawn only
  for an exact product \<open>u * 100\<close> in \<open>[d - 1 / 2 ^ 47, d + 1)\<close>, and for every
  exact product in \<open>[d, d + 1 - 1 / 2 ^ 47)\<close>. So each \<open>d\<close> below 100 belongs to
  the draws of an interval of length one hundredth, up to \<open>1 / 2 ^ 47\<close> hundredths
  at its ends: that is how a uniform \<open>u\<close> makes \<open>d\<close> uniform. After two
  \<open>addNotification\<close> in a row the notification is the one of the second request alone,
  and active.
\<close>

theorem setNotification_spec:
  "(is_double u \<and> double_value u < 1 \<longrightarrow>
      notification (setNotification s r u) =
        \<lparr>message = request_message r,
         timeout = defaultNotificationTimeout + Math_floor (double_times u 100),
         active = True, type = request_type r\<rparr> \<and>
      0 \<le> Math_floor (double_times u 100) \<and> Math_floor (double_times u 100) < 100 \<and>
      real_of_int (Math_floor (double_times u 100)) - 1 / 2 ^ 47 \<le> 100 * double_value u \<and>
      100 * double_value u < real_of_int (Math_floor (double_times u 100)) + 1) \<and>
   (is_double u \<and> d < 100 \<and> real d \<le> 100 * double_value u \<and>
    100 * double_value u < real d + 1 - 1 / 2 ^ 47 \<longrightarrow>
      timeout (notification (setNotification s r u)) = defaultNotificationTimeout + int d) \<and>
   notification (store (run (addNotification r2 u2) (store (run (addNotification r1 u1) s)))) =
     \<lparr>message = request_message r2,
      timeout = defaultNotificationTimeout + Math_floor (double_times u2 100),
      active = True, type = request_type r2\<rparr>"
proof -
  have a: "is_double u \<and> double_value u < 1 \<longrightarrow>
      notification (setNotification s r u) =
        \<lparr>message = request_message r,
         timeout = defaultNotificationTimeout + Math_floor (double_times u 100),
         active = True, type = request_type r\<rparr> \<and>
      0 \<le> Math_floor (double_times u 100) \<and> Math_floor (double_times u 100) < 100 \<and>
      real_of_int (Math_floor (double_times u 100)) - 1 / 2 ^ 47 \<le> 100 * double_value u \<and>
      100 * double_value u < real_of_int (Math_floor (double_times u 100)) + 1"
    using Math_floor_times_100 [of u] by (simp add: setNotification_def)
  have b: "is_double u \<and> d < 100 \<and> real d \<le> 100 * double_value u \<and>
    100 * double_value u < real d + 1 - 1 / 2 ^ 47 \<longrightarrow>
      timeout (notification (setNotification s r u)) = defaultNotificationTimeout + int d"
  proof
    assume h: "is_double u \<and> d < 100 \<and> real d \<le> 100 * double_value u \<and>
      100 * double_value u < real d + 1 - 1 / 2 ^ 47"
    define f where "f = Math_floor (double_times u 100)"
    have "real d + 1 \<le> 100" using h by simp
    then have "double_value u < 1" using h by simp
    then have lo: "real_of_int f - 1 / 2 ^ 47 \<le> 100 * double_value u"
      and up: "100 * double_value u < real_of_int f + 1"
      using Math_floor_times_100 [of u] h by (simp_all add: f_def)
    have "real_of_int f < real_of_int (int d) + 1" using lo h by simp
    then have 1: "f \<le> int d" by linarith
    have "real_of_int (int d) < real_of_int f + 1" using up h by simp
    then have 2: "int d \<le> f" by linarith
    from 1 2 show "timeout (notification (setNotification s r u)) =
        defaultNotificationTimeout + int d"
      by (simp add: setNotification_def f_def)
  qed
  have c: "notification (store (run (addNotification r2 u2) (store (run (addNotification r1 u1) s)))) =
     \<lparr>message = request_message r2,
      timeout = defaultNotificationTimeout + Math_floor (double_times u2 100),
      active = True, type = request_type r2\<rparr>"
    by (simp add: addNotification_run setNotification_def)
  from a b c show ?thesis by blast
qed

text \<open>
  The double \<open>1080863910568919 / 2 ^ 52\<close> lies just below 24 hundredths, and its
  machine product with 100 is 24: the timeout is 3024 milliseconds. The double
  \<open>3 / 2 ^ 3\<close> gives 3037.
\<close>

theorem setNotification_spec_witness:
  "notification (setNotification state
      \<lparr>request_message = ''Message Sent!'', request_type = type_success\<rparr>
      \<lparr>significand = 1080863910568919, exponent = - 52\<rparr>) =
     \<lparr>message = ''Message Sent!'', timeout = 3024, active = True, type = type_success\<rparr> \<and>
   timeout (notification (setNotification state
      \<lparr>request_message = ''Message Sent!'', request_type = type_success\<rparr>
      \<lparr>significand = 3, exponent = - 3\<rparr>)) = 3037"
  using setNotification_spec [where u = "\<lparr>significand = 1080863910568919, exponent = - 52\<rparr>"
      and s = state
      and r = "\<lparr>request_message = ''Message Sent!'', request_type = type_success\<rparr>"]
    setNotification_spec [where u = "\<lparr>significand = 3, exponent = - 3\<rparr>" and d = 37
      and s = state
      and r = "\<lparr>request_message = ''Message Sent!'', request_type = type_success\<rparr>"]
    bit_length_eq [of 56 108086391056891900] bit_length_eq [of 8 300]
  by (simp add: defaultNotificationTimeout_def is_double_def double_value_def
      double_times_def Math_floor_def Let_def)

lemma loadThreads_no_owner:
  "owner s = None \<Longrightarrow> run (loadThreads gw) s =
     \<lparr>store = setThreads s [], events = [Commit (SetThreads [])], outcome = Fulfilled\<rparr>"
  by (simp add: loadThreads_def turn_defs getOwner_def)

lemma loadThreads_fetched:
  "owner s = Some w \<Longrightarrow> message_threads gw w = Inr ts \<Longrightarrow> run (loadThreads gw) s =
     \<lparr>store = setThreads s ts,
      events = [Request (GET_message_threads w), Commit (SetThreads ts)], outcome = Fulfilled\<rparr>"
  by (simp add: loadThreads_def turn_defs getOwner_def)

lemma loadThreads_failed:
  "owner s = Some w \<Longrightarrow> message_threads gw w = Inl e \<Longrightarrow> run (loadThreads gw) s =
     \<lparr>store = s, events = [Request (GET_message_threads w)], outcome = Rejected e\<rparr>"
  by (simp add: loadThreads_def turn_defs getOwner_def)

text \<open>
  Claim C5. With no owner, \<open>loadThreads\<close> sends no request and leaves the thread list
  empty and the thread-list flag cleared. With an owner \<open>w\<close> it first asks the service
  for the threads of \<open>w\<close>, and when the service answers with threads, these replace the
  collection and the flag is cleared.
\<close>

theorem loadThreads_spec:
  "(owner s = None \<longrightarrow>
      (\<forall>rq. Request rq \<notin> set (events (run (loadThreads gw) s))) \<and>
      threads (store (run (loadThreads gw) s)) = [] \<and>
      \<not> loadingThreads (store (run (loadThreads gw) s)) \<and>
      outcome (run (loadThreads gw) s) = Fulfilled) \<and>
   (owner s = Some w \<longrightarrow>
      (\<exists>rest. events (run (loadThreads gw) s) = Request (GET_message_threads w) # rest) \<and>
      (message_threads gw w = Inr ts \<longrightarrow>
         threads (store (run (loadThreads gw) s)) = ts \<and>
         \<not> loadingThreads (store (run (loadThreads gw) s)) \<and>
         events (run (loadThreads gw) s) =
           [Request (GET_message_threads w), Commit (SetThreads ts)] \<and>
         outcome (run (loadThreads gw) s) = Fulfilled))"
proof -
  have a: "owner s = None \<longrightarrow>
      (\<forall>rq. Request rq \<notin> set (events (run (loadThreads gw) s))) \<and>
      threads (store (run (loadThreads gw) s)) = [] \<and>
      \<not> loadingThreads (store (run (loadThreads gw) s)) \<and>
      outcome (run (loadThreads gw) s) = Fulfilled"
    by (simp add: loadThreads_no_owner setThreads_def)
  have b: "owner s = Some w \<longrightarrow>
      (\<exists>rest. events (run (loadThreads gw) s) = Request (GET_message_threads w) # rest)"
    by (cases "message_threads gw w") (simp_all add: loadThreads_fetched loadThreads_failed)
  have c: "owner s = Some w \<longrightarrow> (message_threads gw w = Inr ts \<longrightarrow>
         threads (store (run (loadThreads gw) s)) = ts \<and>
         \<not> loadingThreads (store (run (loadThreads gw) s)) \<and>
         events (run (loadThreads gw) s) =
           [Request (GET_message_threads w), Commit (SetThreads ts)] \<and>
         outcome (run (loadThreads gw) s) = Fulfilled)"
    by (simp add: loadThreads_fetched setThreads_def)
  from a b c show ?thesis by blast
qed

theorem loadThreads_spec_witness:
  "threads (store (run (loadThreads demo_gateway) (state\<lparr>threads := demo_threads\<rparr>))) = [] \<and>
   \<not> loadingThreads (store (run (loadThreads demo_gateway) (state\<lparr>threads := demo_threads\<rparr>))) \<and>
   events (run (loadThreads demo_gateway) (state\<lparr>threads := demo_threads\<rparr>)) =
     [Commit (SetThreads [])] \<and>
   threads (store (run (loadThreads demo_gateway) (state\<lparr>owner := Some ''+1B''\<rparr>))) = demo_threads \<and>
   \<not> loadingThreads (store (run (loadThreads demo_gateway) (state\<lparr>owner := Some ''+1B''\<rparr>))) \<and>
   events (run (loadThreads demo_gateway) (state\<lparr>owner := Some ''+1B''\<rparr>)) =
     [Request (GET_message_threads ''+1B''), Commit (SetThreads demo_threads)]"
  using loadThreads_spec [of "state\<lparr>threads := demo_threads\<rparr>" demo_gateway]
    loadThreads_spec [of "state\<lparr>owner := Some ''+1B''\<rparr>" demo_gateway "''+1B''" demo_threads]
  by (simp add: state_def demo_gateway_def loadThreads_no_owner setThreads_def)

lemma getActivePhone_setOwner:
  "getActivePhone (setOwner s w) = find (\<lambda>x. phone_number x = w) (phones s)"
  by (simp add: getActivePhone_def setOwner_def)

lemma setOwner_action_no_phone:
  "find (\<lambda>x. phone_number x = w) (phones s) = None \<Longrightarrow> run (setOwner_action gw w) s =
     \<lparr>store = setOwner s w, events = [Commit (SetOwner w)], outcome = Fulfilled\<rparr>"
  by (simp add: setOwner_action_def turn_defs getActivePhone_setOwner)

lemma setOwner_action_saved:
  "find (\<lambda>x. phone_number x = w) (phones s) = Some p \<Longrightarrow>
   put_users_me gw (phone_id p) = Inr u' \<Longrightarrow>
   run (setOwner_action gw w) s =
     \<lparr>store = setUser (setOwner s w) (Some u'),
      events = [Commit (SetOwner w), Request (PUT_users_me (phone_id p)),
        Commit (SetUser (Some u'))],
      outcome = Fulfilled\<rparr>"
  by (simp add: setOwner_action_def turn_defs getActivePhone_setOwner)

lemma setOwner_action_failed:
  "find (\<lambda>x. phone_number x = w) (phones s) = Some p \<Longrightarrow>
   put_users_me gw (phone_id p) = Inl e \<Longrightarrow>
   run (setOwner_action gw w) s =
     \<lparr>store = setOwner s w,
      events = [Commit (SetOwner w), Request (PUT_users_me (phone_id p))],
      outcome = Rejected e\<rparr>"
  by (simp add: setOwner_action_def turn_defs getActivePhone_setOwner)

text \<open>
  Claim C4. The action \<open>setOwner\<close> commits the owner \<open>w\<close> first, which leaves both
  loading flags true. When no phone of the collection has the number \<open>w\<close> it ends
  there: no request is sent and the profile is as before. When \<open>p\<close> is the phone with
  that number, the next event is the request that saves the id of \<open>p\<close> as the active
  phone, and when the service answers with a profile, that profile replaces the cached
  one.
\<close>

theorem setOwner_action_spec:
  "(\<exists>rest. events (run (setOwner_action gw w) s) = Commit (SetOwner w) # rest) \<and>
   owner (store (run (setOwner_action gw w) s)) = Some w \<and>
   loadingThreads (store (run (setOwner_action gw w) s)) \<and>
   loadingMessages (store (run (setOwner_action gw w) s)) \<and>
   ((\<forall>x\<in>set (phones s). phone_number x \<noteq> w) \<longrightarrow>
      (\<forall>rq. Request rq \<notin> set (events (run (setOwner_action gw w) s))) \<and>
      user (store (run (setOwner_action gw w) s)) = user s \<and>
      outcome (run (setOwner_action gw w) s) = Fulfilled) \<and>
   (find (\<lambda>x. phone_number x = w) (phones s) = Some p \<longrightarrow>
      (\<exists>rest. events (run (setOwner_action gw w) s) =
         Commit (SetOwner w) # Request (PUT_users_me (phone_id p)) # rest) \<and>
      (put_users_me gw (phone_id p) = Inr u' \<longrightarrow>
         user (store (run (setOwner_action gw w) s)) = Some u' \<and>
         events (run (setOwner_action gw w) s) =
           [Commit (SetOwner w), Request (PUT_users_me (phone_id p)),
            Commit (SetUser (Some u'))] \<and>
         outcome (run (setOwner_action gw w) s) = Fulfilled))"
proof (cases "find (\<lambda>x. phone_number x = w) (phones s)")
  case None
  then have "\<forall>x\<in>set (phones s). phone_number x \<noteq> w" by (simp add: find_None_set)
  then show ?thesis using None
    by (simp add: setOwner_action_no_phone setOwner_def)
next
  case (Some q)
  then have "\<not> (\<forall>x\<in>set (phones s). phone_number x \<noteq> w)" by (auto dest: find_Some_set)
  then show ?thesis using Some
    by (cases "put_users_me gw (phone_id q)")
      (auto simp: setOwner_action_saved setOwner_action_failed setOwner_def setUser_def)
qed

text \<open>An owner that is no phone of the user, and the number of the second phone.\<close>

theorem setOwner_action_spec_witness:
  "events (run (setOwner_action demo_gateway ''+1C'') (state\<lparr>phones := demo_phones\<rparr>)) =
     [Commit (SetOwner ''+1C'')] \<and>
   user (store (run (setOwner_action demo_gateway ''+1C'') (state\<lparr>phones := demo_phones\<rparr>))) = None \<and>
   events (run (setOwner_action demo_gateway ''+1B'') (state\<lparr>phones := demo_phones\<rparr>)) =
     [Commit (SetOwner ''+1B''), Request (PUT_users_me ''2''),
      Commit (SetUser (Some \<lparr>active_phone_id = Some ''2''\<rparr>))] \<and>
   user (store (run (setOwner_action demo_gateway ''+1B'') (state\<lparr>phones := demo_phones\<rparr>))) =
     Some \<lparr>active_phone_id = Some ''2''\<rparr>"
  using setOwner_action_spec [of demo_gateway "''+1C''" "state\<lparr>phones := demo_phones\<rparr>"]
    setOwner_action_spec [of demo_gateway "''+1B''" "state\<lparr>phones := demo_phones\<rparr>"
      "\<lparr>phone_id = ''2'', phone_number = ''+1B''\<rparr>" "\<lparr>active_phone_id = Some ''2''\<rparr>"]
  by (simp add: state_def demo_gateway_def demo_phones_def setOwner_action_no_phone)

lemmas reload_defs = sendMessage_def turn_defs loadThreadMessages_def loadThreads_def
  getOwner_def setThreadId_def setThreads_def setThreadMessages_def

lemma getThread_reselect:
  assumes "getThread s = Inr t"
  shows "getThread (s\<lparr>threadId := Some (thread_id t)\<rparr>) = Inr t"
proof -
  from assms have f: "find (\<lambda>x. Some (thread_id x) = threadId s) (threads s) = Some t"
    by (simp add: getThread_def split: option.splits)
  then have "Some (thread_id t) = threadId s" by (auto dest: find_Some_set)
  then have "find (\<lambda>x. Some (thread_id x) = Some (thread_id t)) (threads s) = Some t"
    using f by simp
  then show ?thesis by (simp add: getThread_def del: option.inject)
qed

lemma getThread_emptied: "getThread (s'\<lparr>threads := [], loadingThreads := False\<rparr>) = Inl (Error (''cannot find thread with id '' @
        (case threadId s' of None \<Rightarrow> ''null'' | Some i \<Rightarrow> i)))"
  by (simp add: getThread_def)

lemma sendMessage_post_failed:
  "messages_send gw rq = Inl e \<Longrightarrow> sendMessage gw ar rq s =
     \<lparr>store = s, events = [Request (POST_messages_send rq)], outcome = Rejected e\<rparr>"
  by (simp add: sendMessage_def after_def)

lemma sendMessage_no_thread:
  "messages_send gw rq = Inr x \<Longrightarrow> getThread s = Inl e \<Longrightarrow> sendMessage gw ar rq s =
     \<lparr>store = s, events = [Request (POST_messages_send rq)], outcome = Rejected e\<rparr>"
  by (simp add: sendMessage_def after_def)

lemma sendMessage_no_owner:
  "messages_send gw rq = Inr x \<Longrightarrow> getThread s = Inr t \<Longrightarrow> owner s = None \<Longrightarrow>
   sendMessage gw ar rq s =
     \<lparr>store = setThreads (setThreadId s (Some (thread_id t))) [],
      events = [Request (POST_messages_send rq),
        Dispatch (LoadThreadMessages (Some (thread_id t))), Commit (SetThreadId (Some (thread_id t))),
        Dispatch LoadThreads, Commit (SetThreads [])],
      outcome = Rejected (Error (''cannot find thread with id '' @ thread_id t))\<rparr>"
  by (simp add: reload_defs getThread_emptied)

lemma sendMessage_reloaded:
  "messages_send gw rq = Inr x \<Longrightarrow> getThread s = Inr t \<Longrightarrow> owner s = Some w \<Longrightarrow>
   message_threads gw w = Inr ts \<Longrightarrow> list_messages gw (contact t) (thread_owner t) = Inr ms \<Longrightarrow>
   sendMessage gw ar rq s =
     \<lparr>store = (if ar = Left_first
         then setThreads (setThreadMessages (setThreadId s (Some (thread_id t))) ms) ts
         else setThreadMessages (setThreads (setThreadId s (Some (thread_id t))) ts) ms),
      events = [Request (POST_messages_send rq),
        Dispatch (LoadThreadMessages (Some (thread_id t))), Commit (SetThreadId (Some (thread_id t))),
        Dispatch LoadThreads, Request (GET_message_threads w),
        Request (GET_messages (contact t) (thread_owner t))] @
        (if ar = Left_first then [Commit (SetThreadMessages ms), Commit (SetThreads ts)]
         else [Commit (SetThreads ts), Commit (SetThreadMessages ms)]),
      outcome = Fulfilled\<rparr>"
  by (cases ar) (simp_all add: reload_defs getThread_reselect)

lemma sendMessage_reload_failed:
  "messages_send gw rq = Inr x \<Longrightarrow> getThread s = Inr t \<Longrightarrow> owner s = Some w \<Longrightarrow>
   message_threads gw w = Inl e \<or> list_messages gw (contact t) (thread_owner t) = Inl e \<Longrightarrow>
   \<exists>e'. outcome (sendMessage gw ar rq s) = Rejected e'"
  apply (cases ar; cases "message_threads gw w"; cases "list_messages gw (contact t) (thread_owner t)")
  apply (simp_all add: reload_defs getThread_reselect)
  done


lemma sendMessage_dispatches:
  "messages_send gw rq = Inr x \<Longrightarrow> getThread s = Inr t \<Longrightarrow>
   \<exists>rest. events (sendMessage gw ar rq s) =
     Request (POST_messages_send rq) # Dispatch (LoadThreadMessages (Some (thread_id t))) #
     Commit (SetThreadId (Some (thread_id t))) # Dispatch LoadThreads # rest"
  by (cases ar; cases "owner s"; cases "message_threads gw (the (owner s))";
      cases "list_messages gw (contact t) (thread_owner t)")
    (simp_all add: reload_defs getThread_reselect getThread_emptied)

lemma sendMessage_fulfilled:
  assumes "outcome (sendMessage gw ar rq s) = Fulfilled"
  shows "\<exists>t w ts ms. messages_send gw rq = Inr () \<and> getThread s = Inr t \<and> owner s = Some w \<and>
    message_threads gw w = Inr ts \<and> list_messages gw (contact t) (thread_owner t) = Inr ms"
proof (cases "messages_send gw rq")
  case (Inl e)
  then show ?thesis using assms by (simp add: sendMessage_post_failed)
next
  case post: (Inr x)
  show ?thesis
  proof (cases "getThread s")
    case (Inl e)
    then show ?thesis using assms post by (simp add: sendMessage_no_thread)
  next
    case thread: (Inr t)
    show ?thesis
    proof (cases "owner s")
      case None
      then show ?thesis using assms post thread by (simp add: sendMessage_no_owner)
    next
      case (Some w)
      show ?thesis
      proof (cases "message_threads gw w")
        case (Inl e)
        then show ?thesis
          using assms sendMessage_reload_failed [OF post thread Some disjI1 [OF Inl], of ar] by auto
      next
        case ts: (Inr ts)
        show ?thesis
        proof (cases "list_messages gw (contact t) (thread_owner t)")
          case (Inl e)
          then show ?thesis
            using assms sendMessage_reload_failed [OF post thread Some disjI2 [OF Inl], of ar] by auto
        next
          case (Inr ms)
          then show ?thesis using post thread Some ts by simp
        qed
      qed
    qed
  qed
qed

text \<open>
  Claim C8. The first event of \<open>sendMessage\<close> is the request that posts the message.
  When the post went through and a thread is open, the dispatch of the reload of that
  thread's messages and the dispatch of the reload of the thread list follow, both in
  the turn in which the post returned. Whenever the promise of \<open>sendMessage\<close> is
  fulfilled, both reloads were dispatched after the post and both ran to their commit,
  in the one or the other order of their answers: the messages and the threads of the
  store are the fetched ones and both loading flags are cleared.
\<close>

theorem sendMessage_spec:
  "(\<exists>rest. events (sendMessage gw ar rq s) = Request (POST_messages_send rq) # rest) \<and>
   (messages_send gw rq = Inr () \<and> getThread s = Inr t \<longrightarrow>
      (\<exists>rest. events (sendMessage gw ar rq s) =
         Request (POST_messages_send rq) # Dispatch (LoadThreadMessages (Some (thread_id t))) #
         Commit (SetThreadId (Some (thread_id t))) # Dispatch LoadThreads # rest)) \<and>
   (outcome (sendMessage gw ar rq s) = Fulfilled \<longrightarrow>
      (\<exists>t w ts ms. messages_send gw rq = Inr () \<and> getThread s = Inr t \<and> owner s = Some w \<and>
         message_threads gw w = Inr ts \<and>
         list_messages gw (contact t) (thread_owner t) = Inr ms \<and>
         events (sendMessage gw ar rq s) =
           [Request (POST_messages_send rq),
            Dispatch (LoadThreadMessages (Some (thread_id t))),
            Commit (SetThreadId (Some (thread_id t))),
            Dispatch LoadThreads, Request (GET_message_threads w),
            Request (GET_messages (contact t) (thread_owner t))] @
           (if ar = Left_first then [Commit (SetThreadMessages ms), Commit (SetThreads ts)]
            else [Commit (SetThreads ts), Commit (SetThreadMessages ms)]) \<and>
         threadMessages (store (sendMessage gw ar rq s)) = ms \<and>
         \<not> loadingMessages (store (sendMessage gw ar rq s)) \<and>
         threads (store (sendMessage gw ar rq s)) = ts \<and>
         \<not> loadingThreads (store (sendMessage gw ar rq s))))"
proof -
  have a: "\<exists>rest. events (sendMessage gw ar rq s) = Request (POST_messages_send rq) # rest"
    by (simp add: sendMessage_def after_def)
  have b: "messages_send gw rq = Inr () \<and> getThread s = Inr t \<longrightarrow>
      (\<exists>rest. events (sendMessage gw ar rq s) =
         Request (POST_messages_send rq) # Dispatch (LoadThreadMessages (Some (thread_id t))) #
         Commit (SetThreadId (Some (thread_id t))) # Dispatch LoadThreads # rest)"
    using sendMessage_dispatches by blast
  have c: "outcome (sendMessage gw ar rq s) = Fulfilled \<longrightarrow>
      (\<exists>t w ts ms. messages_send gw rq = Inr () \<and> getThread s = Inr t \<and> owner s = Some w \<and>
         message_threads gw w = Inr ts \<and>
         list_messages gw (contact t) (thread_owner t) = Inr ms \<and>
         events (sendMessage gw ar rq s) =
           [Request (POST_messages_send rq),
            Dispatch (LoadThreadMessages (Some (thread_id t))),
            Commit (SetThreadId (Some (thread_id t))),
            Dispatch LoadThreads, Request (GET_message_threads w),
            Request (GET_messages (contact t) (thread_owner t))] @
           (if ar = Left_first then [Commit (SetThreadMessages ms), Commit (SetThreads ts)]
            else [Commit (SetThreads ts), Commit (SetThreadMessages ms)]) \<and>
         threadMessages (store (sendMessage gw ar rq s)) = ms \<and>
         \<not> loadingMessages (store (sendMessage gw ar rq s)) \<and>
         threads (store (sendMessage gw ar rq s)) = ts \<and>
         \<not> loadingThreads (store (sendMessage gw ar rq s)))"
  proof
    assume "outcome (sendMessage gw ar rq s) = Fulfilled"
    then obtain t w ts ms where h: "messages_send gw rq = Inr ()" "getThread s = Inr t"
      "owner s = Some w" "message_threads gw w = Inr ts"
      "list_messages gw (contact t) (thread_owner t) = Inr ms"
      using sendMessage_fulfilled by blast
    have "sendMessage gw ar rq s =
     \<lparr>store = (if ar = Left_first
         then setThreads (setThreadMessages (setThreadId s (Some (thread_id t))) ms) ts
         else setThreadMessages (setThreads (setThreadId s (Some (thread_id t))) ts) ms),
      events = [Request (POST_messages_send rq),
        Dispatch (LoadThreadMessages (Some (thread_id t))), Commit (SetThreadId (Some (thread_id t))),
        Dispatch LoadThreads, Request (GET_message_threads w),
        Request (GET_messages (contact t) (thread_owner t))] @
        (if ar = Left_first then [Commit (SetThreadMessages ms), Commit (SetThreads ts)]
         else [Commit (SetThreads ts), Commit (SetThreadMessages ms)]),
      outcome = Fulfilled\<rparr>"
      by (rule sendMessage_reloaded [OF h])
    then show "\<exists>t w ts ms. messages_send gw rq = Inr () \<and> getThread s = Inr t \<and> owner s = Some w \<and>
         message_threads gw w = Inr ts \<and>
         list_messages gw (contact t) (thread_owner t) = Inr ms \<and>
         events (sendMessage gw ar rq s) =
           [Request (POST_messages_send rq),
            Dispatch (LoadThreadMessages (Some (thread_id t))),
            Commit (SetThreadId (Some (thread_id t))),
            Dispatch LoadThreads, Request (GET_message_threads w),
            Request (GET_messages (contact t) (thread_owner t))] @
           (if ar = Left_first then [Commit (SetThreadMessages ms), Commit (SetThreads ts)]
            else [Commit (SetThreads ts), Commit (SetThreadMessages ms)]) \<and>
         threadMessages (store (sendMessage gw ar rq s)) = ms \<and>
         \<not> loadingMessages (store (sendMessage gw ar rq s)) \<and>
         threads (store (sendMessage gw ar rq s)) = ts \<and>
         \<not> loadingThreads (store (sendMessage gw ar rq s))"
      using h by (auto simp: setThreads_def setThreadMessages_def setThreadId_def)
  qed
  from a b c show ?thesis by blast
qed

lemma demo_getThread:
  "getThread demo_state = Inr \<lparr>thread_id = ''a'', thread_owner = ''+1B'', contact = ''+2''\<rparr>"
  by (simp add: demo_state_def demo_threads_def getThread_def state_def)

lemma demo_sendMessage:
  "outcome (sendMessage demo_gateway ar demo_request demo_state) = Fulfilled"
  using sendMessage_reloaded [of demo_gateway demo_request "()" demo_state
      "\<lparr>thread_id = ''a'', thread_owner = ''+1B'', contact = ''+2''\<rparr>" "''+1B''" demo_threads "[]" ar]
  by (simp add: demo_getThread) (simp add: demo_gateway_def demo_state_def)

text \<open>The thread list answers before the messages do.\<close>

theorem sendMessage_spec_witness:
  "outcome (sendMessage demo_gateway Right_first demo_request demo_state) = Fulfilled \<and>
   events (sendMessage demo_gateway Right_first demo_request demo_state) =
     [Request (POST_messages_send demo_request),
      Dispatch (LoadThreadMessages (Some ''a'')), Commit (SetThreadId (Some ''a'')),
      Dispatch LoadThreads, Request (GET_message_threads ''+1B''),
      Request (GET_messages ''+2'' ''+1B''),
      Commit (SetThreads demo_threads), Commit (SetThreadMessages [])] \<and>
   \<not> loadingMessages (store (sendMessage demo_gateway Right_first demo_request demo_state)) \<and>
   \<not> loadingThreads (store (sendMessage demo_gateway Right_first demo_request demo_state))"
  using sendMessage_spec [of demo_gateway Right_first demo_request demo_state
      "\<lparr>thread_id = ''a'', thread_owner = ''+1B'', contact = ''+2''\<rparr>"]
    demo_sendMessage [of Right_first]
  by (simp add: demo_getThread) (auto simp: demo_gateway_def demo_state_def)

lemmas load_defs = turn_defs loadUser_def loadPhones_def getPhones_def

lemma load_cached:
  "phones s \<noteq> [] \<Longrightarrow> get_users_me gw = Inr pr \<Longrightarrow>
   promise_all ar (dispatch gw LoadUser) (dispatch gw (LoadPhones False)) s =
     \<lparr>store = setUser s (Some pr),
      events = [Dispatch LoadUser, Request GET_users_me, Dispatch (LoadPhones False),
        Commit (SetUser (Some pr))],
      outcome = Fulfilled\<rparr>"
  by (simp add: load_defs)

lemma load_fetched:
  "phones s = [] \<Longrightarrow> get_users_me gw = Inr pr \<Longrightarrow> list_phones gw 100 = Inr ps \<Longrightarrow>
   promise_all ar (dispatch gw LoadUser) (dispatch gw (LoadPhones False)) s =
     \<lparr>store = (if ar = Left_first then setPhones (setUser s (Some pr)) ps
               else setUser (setPhones s ps) (Some pr)),
      events = [Dispatch LoadUser, Request GET_users_me, Dispatch (LoadPhones False),
        Request (GET_phones 100)] @
        (if ar = Left_first then [Commit (SetUser (Some pr)), Commit (SetPhones ps)]
         else [Commit (SetPhones ps), Commit (SetUser (Some pr))]),
      outcome = Fulfilled\<rparr>"
  by (cases ar) (simp_all add: load_defs)

lemma load_started:
  "\<exists>rest. events (promise_all ar (dispatch gw LoadUser) (dispatch gw (LoadPhones False)) s) =
     Dispatch LoadUser # Request GET_users_me # Dispatch (LoadPhones False) # rest"
  by (cases ar; cases "get_users_me gw"; cases "list_phones gw 100"; cases "phones s = []")
    (simp_all add: load_defs)

lemma load_fulfilled:
  "outcome (promise_all ar (dispatch gw LoadUser) (dispatch gw (LoadPhones False)) s) = Fulfilled \<Longrightarrow>
   \<exists>pr. get_users_me gw = Inr pr"
  by (cases ar; cases "get_users_me gw"; cases "list_phones gw 100"; cases "phones s = []")
    (simp_all add: load_defs)

lemma setPhones_setUser: "setPhones (setUser s v) ps = setUser (setPhones s ps) v"
  by (simp add: setPhones_def setUser_def Let_def)


lemma setAuthUser_same:
  "\<not> (u \<noteq> None \<and> map_option authUser_id u \<noteq> map_option authUser_id (authUser s)) \<Longrightarrow>
   setAuthUser_action gw ar u s =
     \<lparr>store = setAuthUser s u, events = [Commit (SetAuthUser u)], outcome = Fulfilled\<rparr>"
  by (auto simp: setAuthUser_action_def Let_def after_def getAuthUser_def)

lemma setAuthUser_changed:
  "u \<noteq> None \<and> map_option authUser_id u \<noteq> map_option authUser_id (authUser s) \<Longrightarrow>
   setAuthUser_action gw ar u s =
     after [Commit (SetAuthUser u)]
       (let r = promise_all ar (dispatch gw LoadUser) (dispatch gw (LoadPhones False))
                  (setAuthUser s u)
        in case outcome r of
             Rejected e \<Rightarrow> r
           | Fulfilled \<Rightarrow>
               (case preferred_phone (store r) of
                  Inl e \<Rightarrow> r\<lparr>outcome := Rejected e\<rparr>
                | Inr None \<Rightarrow> r
                | Inr (Some phone) \<Rightarrow>
                    after (events r)
                      (run (dispatch gw (SetOwnerAction (phone_number phone))) (store r))))"
  by (auto simp: setAuthUser_action_def Let_def getAuthUser_def)

lemma setAuthUser_started:
  assumes "u \<noteq> None \<and> map_option authUser_id u \<noteq> map_option authUser_id (authUser s)"
  shows "\<exists>rest. events (setAuthUser_action gw ar u s) =
     Commit (SetAuthUser u) # Dispatch LoadUser # Request GET_users_me #
     Dispatch (LoadPhones False) # rest"
proof -
  obtain rest where
    "events (promise_all ar (dispatch gw LoadUser) (dispatch gw (LoadPhones False))
       (setAuthUser s u)) =
     Dispatch LoadUser # Request GET_users_me # Dispatch (LoadPhones False) # rest"
    using load_started by blast
  then show ?thesis
    by (simp add: setAuthUser_changed [OF assms] Let_def after_def
        split: outcome.splits sum.splits option.splits)
qed

lemma preferred_phone_loaded:
  "user s = Some pr \<Longrightarrow>
   preferred_phone s = Inr (find (\<lambda>x. Some (phone_id x) = active_phone_id pr) (phones s))"
  by (simp add: preferred_phone_def getPhones_def getUser_def split: list.splits)

lemma run_dispatch: "run (dispatch gw a) s = after [Dispatch a] (run (handler gw a) s)"
  by (simp add: turn_defs split: prod.splits)

lemma setOwner_action_run_cases:
  "run (setOwner_action gw w) s =
     (case find (\<lambda>x. phone_number x = w) (phones s) of
        None \<Rightarrow> \<lparr>store = setOwner s w, events = [Commit (SetOwner w)], outcome = Fulfilled\<rparr>
      | Some p \<Rightarrow>
          (case put_users_me gw (phone_id p) of
             Inl e \<Rightarrow> \<lparr>store = setOwner s w,
                  events = [Commit (SetOwner w), Request (PUT_users_me (phone_id p))],
                  outcome = Rejected e\<rparr>
           | Inr u' \<Rightarrow> \<lparr>store = setUser (setOwner s w) (Some u'),
                  events = [Commit (SetOwner w), Request (PUT_users_me (phone_id p)),
                    Commit (SetUser (Some u'))],
                  outcome = Fulfilled\<rparr>))"
  by (simp add: setOwner_action_no_phone setOwner_action_saved setOwner_action_failed
      split: option.splits sum.splits)

lemma setOwner_action_no_dispatch:
  "Dispatch a \<notin> set (events (run (setOwner_action gw w) s))"
  by (simp add: setOwner_action_run_cases split: option.splits sum.splits)

lemma setOwner_action_owner:
  "owner (store (run (setOwner_action gw w) s)) = Some w"
  by (simp add: setOwner_action_run_cases setOwner_def setUser_def split: option.splits sum.splits)

lemma loaded_exact:
  assumes "get_users_me gw = Inr pr" and "phones s = [] \<longrightarrow> list_phones gw 100 = Inr ps"
  shows "promise_all ar (dispatch gw LoadUser) (dispatch gw (LoadPhones False)) s =
      \<lparr>store = (if phones s = [] then setPhones (setUser s (Some pr)) ps
                else setUser s (Some pr)),
       events = [Dispatch LoadUser, Request GET_users_me, Dispatch (LoadPhones False)] @
         (if phones s = []
          then Request (GET_phones 100) #
            (if ar = Left_first then [Commit (SetUser (Some pr)), Commit (SetPhones ps)]
             else [Commit (SetPhones ps), Commit (SetUser (Some pr))])
          else [Commit (SetUser (Some pr))]),
       outcome = Fulfilled\<rparr>"
proof (cases "phones s = []")
  case True
  then show ?thesis using assms
    by (simp add: load_fetched setPhones_setUser)
next
  case False
  then show ?thesis using assms by (simp add: load_cached)
qed

lemma load_rejected:
  assumes "get_users_me gw = Inl e \<or> (phones s = [] \<and> list_phones gw 100 = Inl e)"
  shows "\<exists>e'. outcome (promise_all ar (dispatch gw LoadUser) (dispatch gw (LoadPhones False)) s) =
      Rejected e' \<and>
    (\<forall>w. Dispatch (SetOwnerAction w) \<notin>
       set (events (promise_all ar (dispatch gw LoadUser) (dispatch gw (LoadPhones False)) s)))"
  using assms
  by (cases ar; cases "get_users_me gw"; cases "list_phones gw 100"; cases "phones s = []")
    (simp_all add: load_defs)

lemma setAuthUser_cascade_exact:
  assumes ch: "u \<noteq> None \<and> map_option authUser_id u \<noteq> map_option authUser_id (authUser s)"
    and us: "get_users_me gw = Inr pr"
    and ph: "phones s = [] \<longrightarrow> list_phones gw 100 = Inr ps"
    and s1: "s1 = (if phones s = [] then setPhones (setUser (setAuthUser s u) (Some pr)) ps
                  else setUser (setAuthUser s u) (Some pr))"
    and ld: "loads = [Commit (SetAuthUser u), Dispatch LoadUser, Request GET_users_me,
                Dispatch (LoadPhones False)] @
              (if phones s = []
               then Request (GET_phones 100) #
                 (if ar = Left_first then [Commit (SetUser (Some pr)), Commit (SetPhones ps)]
                  else [Commit (SetPhones ps), Commit (SetUser (Some pr))])
               else [Commit (SetUser (Some pr))])"
  shows "setAuthUser_action gw ar u s =
     (case find (\<lambda>x. Some (phone_id x) = active_phone_id pr) (phones s1) of
        None \<Rightarrow> \<lparr>store = s1, events = loads, outcome = Fulfilled\<rparr>
      | Some p \<Rightarrow>
          \<lparr>store = store (run (setOwner_action gw (phone_number p)) s1),
           events = loads @ Dispatch (SetOwnerAction (phone_number p)) #
             events (run (setOwner_action gw (phone_number p)) s1),
           outcome = outcome (run (setOwner_action gw (phone_number p)) s1)\<rparr>)"
proof -
  have p0: "phones (setAuthUser s u) = phones s" by (simp add: setAuthUser_def)
  have l: "promise_all ar (dispatch gw LoadUser) (dispatch gw (LoadPhones False))
      (setAuthUser s u) =
      \<lparr>store = s1, events = tl loads, outcome = Fulfilled\<rparr>"
    using loaded_exact [of gw pr "setAuthUser s u" ps ar] us ph p0 by (simp add: s1 ld)
  have u1: "user s1 = Some pr" by (simp add: s1 setUser_def setPhones_def Let_def)
  have pp: "preferred_phone s1 =
      Inr (find (\<lambda>x. Some (phone_id x) = active_phone_id pr) (phones s1))"
    by (rule preferred_phone_loaded [OF u1])
  have hd: "Commit (SetAuthUser u) # tl loads = loads" by (simp add: ld)
  show ?thesis
    using hd by (simp add: setAuthUser_changed [OF ch] l pp run_dispatch after_def
        split: option.splits)
qed

lemma setAuthUser_load_rejected:
  assumes ch: "u \<noteq> None \<and> map_option authUser_id u \<noteq> map_option authUser_id (authUser s)"
    and rj: "get_users_me gw = Inl e \<or> (phones s = [] \<and> list_phones gw 100 = Inl e)"
  shows "(\<exists>e'. outcome (setAuthUser_action gw ar u s) = Rejected e') \<and>
    (\<forall>w. Dispatch (SetOwnerAction w) \<notin> set (events (setAuthUser_action gw ar u s)))"
proof -
  have p0: "phones (setAuthUser s u) = phones s" by (simp add: setAuthUser_def)
  obtain e' where l:
    "outcome (promise_all ar (dispatch gw LoadUser) (dispatch gw (LoadPhones False))
       (setAuthUser s u)) = Rejected e'"
    "\<forall>w. Dispatch (SetOwnerAction w) \<notin>
       set (events (promise_all ar (dispatch gw LoadUser) (dispatch gw (LoadPhones False))
         (setAuthUser s u)))"
    using load_rejected [of gw e "setAuthUser s u" ar] rj p0 by auto
  show ?thesis using l
    by (simp add: setAuthUser_changed [OF ch] Let_def after_def)
qed

lemma demo_load_failed:
  "outcome (setAuthUser_action (demo_gateway\<lparr>get_users_me := Inl (AxiosError None)\<rparr>)
     Left_first demo_user state) = Rejected (AxiosError None)"
  by (simp add: setAuthUser_action_def load_defs preferred_phone_def
      getAuthUser_def getUser_def state_def demo_user_def demo_gateway_def
      demo_phones_def setAuthUser_def setUser_def setPhones_def)

text \<open>
  Claim C3. The action \<open>setAuthUser\<close> dispatches \<open>loadUser\<close> and \<open>loadPhones\<close> exactly
  when the new user is not \<^verbatim>\<open>null\<close> and its id differs from the id of the current
  one (a current user that is \<^verbatim>\<open>null\<close> has no id, which differs from every id).
  Otherwise its only event is the commit of the new user: nothing is dispatched or
  requested, and the owner is the one before. In the cascade both loads are started
  before an answer to either is handled. When the profile \<open>pr\<close> is loaded, and the
  phones \<open>ps\<close> as well where none were cached, the state \<open>sl\<close> holds them and the
  events so far are \<open>loads\<close>. The action then looks for the first phone of the
  collection whose id is the \<^verbatim>\<open>active_phone_id\<close> of \<open>pr\<close>. With no such phone it
  ends there, fulfilled, in the state \<open>sl\<close>, and has dispatched no \<open>setOwner\<close>. With
  such a phone \<open>p\<close> it dispatches \<open>setOwner\<close> with the number of \<open>p\<close>, once, after the
  commits of the loads: what follows is the run of that action from \<open>sl\<close> and nothing
  else, the action ends as that run ends, and the owner is then the number of \<open>p\<close>.
  When a load is rejected the action is rejected and dispatches no \<open>setOwner\<close>.
\<close>

theorem setAuthUser_action_spec:
  "((Dispatch LoadUser \<in> set (events (setAuthUser_action gw ar u s))) =
      (u \<noteq> None \<and> map_option authUser_id u \<noteq> map_option authUser_id (authUser s))) \<and>
   ((Dispatch (LoadPhones False) \<in> set (events (setAuthUser_action gw ar u s))) =
      (u \<noteq> None \<and> map_option authUser_id u \<noteq> map_option authUser_id (authUser s))) \<and>
   (\<not> (u \<noteq> None \<and> map_option authUser_id u \<noteq> map_option authUser_id (authUser s)) \<longrightarrow>
      events (setAuthUser_action gw ar u s) = [Commit (SetAuthUser u)] \<and>
      store (setAuthUser_action gw ar u s) = s\<lparr>authUser := u\<rparr> \<and>
      owner (store (setAuthUser_action gw ar u s)) = owner s \<and>
      outcome (setAuthUser_action gw ar u s) = Fulfilled) \<and>
   (u \<noteq> None \<and> map_option authUser_id u \<noteq> map_option authUser_id (authUser s) \<longrightarrow>
      (\<exists>rest. events (setAuthUser_action gw ar u s) =
         Commit (SetAuthUser u) # Dispatch LoadUser # Request GET_users_me #
         Dispatch (LoadPhones False) # rest) \<and>
      (get_users_me gw = Inr pr \<and> (phones s = [] \<longrightarrow> list_phones gw 100 = Inr ps) \<and>
       sl = (if phones s = [] then setPhones (setUser (setAuthUser s u) (Some pr)) ps
             else setUser (setAuthUser s u) (Some pr)) \<and>
       loads = [Commit (SetAuthUser u), Dispatch LoadUser, Request GET_users_me,
                Dispatch (LoadPhones False)] @
               (if phones s = []
                then Request (GET_phones 100) #
                  (if ar = Left_first then [Commit (SetUser (Some pr)), Commit (SetPhones ps)]
                   else [Commit (SetPhones ps), Commit (SetUser (Some pr))])
                else [Commit (SetUser (Some pr))]) \<longrightarrow>
         phones sl = (if phones s = [] then ps else phones s) \<and>
         user sl = Some pr \<and>
         (find (\<lambda>x. Some (phone_id x) = active_phone_id pr) (phones sl) = None \<longrightarrow>
            setAuthUser_action gw ar u s =
              \<lparr>store = sl, events = loads, outcome = Fulfilled\<rparr> \<and>
            (\<forall>w. Dispatch (SetOwnerAction w) \<notin> set (events (setAuthUser_action gw ar u s)))) \<and>
         (find (\<lambda>x. Some (phone_id x) = active_phone_id pr) (phones sl) = Some p \<longrightarrow>
            setAuthUser_action gw ar u s =
              \<lparr>store = store (run (setOwner_action gw (phone_number p)) sl),
               events = loads @ Dispatch (SetOwnerAction (phone_number p)) #
                 events (run (setOwner_action gw (phone_number p)) sl),
               outcome = outcome (run (setOwner_action gw (phone_number p)) sl)\<rparr> \<and>
            (\<forall>w. Dispatch (SetOwnerAction w) \<notin> set loads) \<and>
            (\<forall>a. Dispatch a \<notin> set (events (run (setOwner_action gw (phone_number p)) sl))) \<and>
            owner (store (setAuthUser_action gw ar u s)) = Some (phone_number p))) \<and>
      (get_users_me gw = Inl e \<or> (phones s = [] \<and> list_phones gw 100 = Inl e) \<longrightarrow>
         (\<exists>e'. outcome (setAuthUser_action gw ar u s) = Rejected e') \<and>
         (\<forall>w. Dispatch (SetOwnerAction w) \<notin> set (events (setAuthUser_action gw ar u s)))))"
proof (cases "u \<noteq> None \<and> map_option authUser_id u \<noteq> map_option authUser_id (authUser s)")
  case False
  have r: "setAuthUser_action gw ar u s =
     \<lparr>store = setAuthUser s u, events = [Commit (SetAuthUser u)], outcome = Fulfilled\<rparr>"
    by (rule setAuthUser_same [OF False])
  have a: "Dispatch LoadUser \<notin> set (events (setAuthUser_action gw ar u s))"
    by (simp add: r)
  have b: "Dispatch (LoadPhones False) \<notin> set (events (setAuthUser_action gw ar u s))"
    by (simp add: r)
  have c: "events (setAuthUser_action gw ar u s) = [Commit (SetAuthUser u)] \<and>
      store (setAuthUser_action gw ar u s) = s\<lparr>authUser := u\<rparr> \<and>
      owner (store (setAuthUser_action gw ar u s)) = owner s \<and>
      outcome (setAuthUser_action gw ar u s) = Fulfilled"
    by (simp add: r setAuthUser_def)
  from False a b c show ?thesis by blast
next
  case True
  obtain rest where rest: "events (setAuthUser_action gw ar u s) =
     Commit (SetAuthUser u) # Dispatch LoadUser # Request GET_users_me #
     Dispatch (LoadPhones False) # rest"
    using setAuthUser_started [OF True] by blast
  have a: "Dispatch LoadUser \<in> set (events (setAuthUser_action gw ar u s))"
    by (simp add: rest)
  have b: "Dispatch (LoadPhones False) \<in> set (events (setAuthUser_action gw ar u s))"
    by (simp add: rest)
  have loaded: "get_users_me gw = Inr pr \<and> (phones s = [] \<longrightarrow> list_phones gw 100 = Inr ps) \<and>
       sl = (if phones s = [] then setPhones (setUser (setAuthUser s u) (Some pr)) ps
             else setUser (setAuthUser s u) (Some pr)) \<and>
       loads = [Commit (SetAuthUser u), Dispatch LoadUser, Request GET_users_me,
                Dispatch (LoadPhones False)] @
               (if phones s = []
                then Request (GET_phones 100) #
                  (if ar = Left_first then [Commit (SetUser (Some pr)), Commit (SetPhones ps)]
                   else [Commit (SetPhones ps), Commit (SetUser (Some pr))])
                else [Commit (SetUser (Some pr))]) \<longrightarrow>
         phones sl = (if phones s = [] then ps else phones s) \<and>
         user sl = Some pr \<and>
         (find (\<lambda>x. Some (phone_id x) = active_phone_id pr) (phones sl) = None \<longrightarrow>
            setAuthUser_action gw ar u s =
              \<lparr>store = sl, events = loads, outcome = Fulfilled\<rparr> \<and>
            (\<forall>w. Dispatch (SetOwnerAction w) \<notin> set (events (setAuthUser_action gw ar u s)))) \<and>
         (find (\<lambda>x. Some (phone_id x) = active_phone_id pr) (phones sl) = Some p \<longrightarrow>
            setAuthUser_action gw ar u s =
              \<lparr>store = store (run (setOwner_action gw (phone_number p)) sl),
               events = loads @ Dispatch (SetOwnerAction (phone_number p)) #
                 events (run (setOwner_action gw (phone_number p)) sl),
               outcome = outcome (run (setOwner_action gw (phone_number p)) sl)\<rparr> \<and>
            (\<forall>w. Dispatch (SetOwnerAction w) \<notin> set loads) \<and>
            (\<forall>a. Dispatch a \<notin> set (events (run (setOwner_action gw (phone_number p)) sl))) \<and>
            owner (store (setAuthUser_action gw ar u s)) = Some (phone_number p))"
  proof
    assume h: "get_users_me gw = Inr pr \<and> (phones s = [] \<longrightarrow> list_phones gw 100 = Inr ps) \<and>
       sl = (if phones s = [] then setPhones (setUser (setAuthUser s u) (Some pr)) ps
             else setUser (setAuthUser s u) (Some pr)) \<and>
       loads = [Commit (SetAuthUser u), Dispatch LoadUser, Request GET_users_me,
                Dispatch (LoadPhones False)] @
               (if phones s = []
                then Request (GET_phones 100) #
                  (if ar = Left_first then [Commit (SetUser (Some pr)), Commit (SetPhones ps)]
                   else [Commit (SetPhones ps), Commit (SetUser (Some pr))])
                else [Commit (SetUser (Some pr))])"
    then have us: "get_users_me gw = Inr pr"
      and ph: "phones s = [] \<longrightarrow> list_phones gw 100 = Inr ps"
      and sl: "sl = (if phones s = [] then setPhones (setUser (setAuthUser s u) (Some pr)) ps
             else setUser (setAuthUser s u) (Some pr))"
      and ld: "loads = [Commit (SetAuthUser u), Dispatch LoadUser, Request GET_users_me,
                Dispatch (LoadPhones False)] @
               (if phones s = []
                then Request (GET_phones 100) #
                  (if ar = Left_first then [Commit (SetUser (Some pr)), Commit (SetPhones ps)]
                   else [Commit (SetPhones ps), Commit (SetUser (Some pr))])
                else [Commit (SetUser (Some pr))])"
      by blast+
    have ex: "setAuthUser_action gw ar u s =
     (case find (\<lambda>x. Some (phone_id x) = active_phone_id pr) (phones sl) of
        None \<Rightarrow> \<lparr>store = sl, events = loads, outcome = Fulfilled\<rparr>
      | Some p \<Rightarrow>
          \<lparr>store = store (run (setOwner_action gw (phone_number p)) sl),
           events = loads @ Dispatch (SetOwnerAction (phone_number p)) #
             events (run (setOwner_action gw (phone_number p)) sl),
           outcome = outcome (run (setOwner_action gw (phone_number p)) sl)\<rparr>)"
      by (rule setAuthUser_cascade_exact [OF True us ph sl ld])
    have p1: "phones sl = (if phones s = [] then ps else phones s)"
      by (simp add: sl setPhones_def setUser_def setAuthUser_def Let_def)
    have u1: "user sl = Some pr"
      by (simp add: sl setPhones_def setUser_def Let_def)
    have nl: "\<forall>w. Dispatch (SetOwnerAction w) \<notin> set loads"
      by (simp add: ld)
    have n: "find (\<lambda>x. Some (phone_id x) = active_phone_id pr) (phones sl) = None \<longrightarrow>
            setAuthUser_action gw ar u s =
              \<lparr>store = sl, events = loads, outcome = Fulfilled\<rparr> \<and>
            (\<forall>w. Dispatch (SetOwnerAction w) \<notin> set (events (setAuthUser_action gw ar u s)))"
      using ex nl by simp
    have f: "find (\<lambda>x. Some (phone_id x) = active_phone_id pr) (phones sl) = Some p \<longrightarrow>
            setAuthUser_action gw ar u s =
              \<lparr>store = store (run (setOwner_action gw (phone_number p)) sl),
               events = loads @ Dispatch (SetOwnerAction (phone_number p)) #
                 events (run (setOwner_action gw (phone_number p)) sl),
               outcome = outcome (run (setOwner_action gw (phone_number p)) sl)\<rparr> \<and>
            (\<forall>w. Dispatch (SetOwnerAction w) \<notin> set loads) \<and>
            (\<forall>a. Dispatch a \<notin> set (events (run (setOwner_action gw (phone_number p)) sl))) \<and>
            owner (store (setAuthUser_action gw ar u s)) = Some (phone_number p)"
      using ex nl by (simp add: setOwner_action_no_dispatch setOwner_action_owner)
    from p1 u1 n f show "phones sl = (if phones s = [] then ps else phones s) \<and>
         user sl = Some pr \<and>
         (find (\<lambda>x. Some (phone_id x) = active_phone_id pr) (phones sl) = None \<longrightarrow>
            setAuthUser_action gw ar u s =
              \<lparr>store = sl, events = loads, outcome = Fulfilled\<rparr> \<and>
            (\<forall>w. Dispatch (SetOwnerAction w) \<notin> set (events (setAuthUser_action gw ar u s)))) \<and>
         (find (\<lambda>x. Some (phone_id x) = active_phone_id pr) (phones sl) = Some p \<longrightarrow>
            setAuthUser_action gw ar u s =
              \<lparr>store = store (run (setOwner_action gw (phone_number p)) sl),
               events = loads @ Dispatch (SetOwnerAction (phone_number p)) #
                 events (run (setOwner_action gw (phone_number p)) sl),
               outcome = outcome (run (setOwner_action gw (phone_number p)) sl)\<rparr> \<and>
            (\<forall>w. Dispatch (SetOwnerAction w) \<notin> set loads) \<and>
            (\<forall>a. Dispatch a \<notin> set (events (run (setOwner_action gw (phone_number p)) sl))) \<and>
            owner (store (setAuthUser_action gw ar u s)) = Some (phone_number p))"
      by blast
  qed
  have failed: "get_users_me gw = Inl e \<or> (phones s = [] \<and> list_phones gw 100 = Inl e) \<longrightarrow>
         (\<exists>e'. outcome (setAuthUser_action gw ar u s) = Rejected e') \<and>
         (\<forall>w. Dispatch (SetOwnerAction w) \<notin> set (events (setAuthUser_action gw ar u s)))"
    using setAuthUser_load_rejected [OF True] by blast
  from True rest a b loaded failed show ?thesis by blast
qed

text \<open>
  A first sign-in from the initial state, then the same user once more, then
  \<^verbatim>\<open>null\<close>, and a first sign-in with a service that refuses the profile.
\<close>

theorem setAuthUser_action_spec_witness:
  "setAuthUser_action demo_gateway Left_first demo_user state =
     \<lparr>store = state\<lparr>authUser := demo_user, phones := demo_phones, owner := Some ''+1B'',
        user := Some \<lparr>active_phone_id = Some ''2''\<rparr>\<rparr>,
      events = [Commit (SetAuthUser demo_user), Dispatch LoadUser, Request GET_users_me,
        Dispatch (LoadPhones False), Request (GET_phones 100),
        Commit (SetUser (Some \<lparr>active_phone_id = Some ''2''\<rparr>)), Commit (SetPhones demo_phones),
        Dispatch (SetOwnerAction ''+1B''), Commit (SetOwner ''+1B''),
        Request (PUT_users_me ''2''), Commit (SetUser (Some \<lparr>active_phone_id = Some ''2''\<rparr>))],
      outcome = Fulfilled\<rparr> \<and>
   events (setAuthUser_action demo_gateway Left_first demo_user
     (state\<lparr>authUser := demo_user\<rparr>)) = [Commit (SetAuthUser demo_user)] \<and>
   events (setAuthUser_action demo_gateway Left_first None
     (state\<lparr>authUser := demo_user\<rparr>)) = [Commit (SetAuthUser None)] \<and>
   outcome (setAuthUser_action (demo_gateway\<lparr>get_users_me := Inl (AxiosError None)\<rparr>)
     Left_first demo_user state) = Rejected (AxiosError None)"
proof -
  let ?pr = "\<lparr>active_phone_id = Some ''2''\<rparr>"
  let ?p = "\<lparr>phone_id = ''2'', phone_number = ''+1B''\<rparr>"
  let ?sl = "setPhones (setUser (setAuthUser state demo_user) (Some ?pr)) demo_phones"
  let ?loads = "[Commit (SetAuthUser demo_user), Dispatch LoadUser, Request GET_users_me,
     Dispatch (LoadPhones False), Request (GET_phones 100),
     Commit (SetUser (Some ?pr)), Commit (SetPhones demo_phones)]"
  have ch: "demo_user \<noteq> None \<and>
      map_option authUser_id demo_user \<noteq> map_option authUser_id (authUser state)"
    by (simp add: demo_user_def state_def)
  have us: "get_users_me demo_gateway = Inr ?pr" by (simp add: demo_gateway_def)
  have ph: "phones state = [] \<longrightarrow> list_phones demo_gateway 100 = Inr demo_phones"
    by (simp add: demo_gateway_def)
  have sl: "?sl = (if phones state = []
      then setPhones (setUser (setAuthUser state demo_user) (Some ?pr)) demo_phones
      else setUser (setAuthUser state demo_user) (Some ?pr))"
    by (simp add: state_def)
  have ld: "?loads = [Commit (SetAuthUser demo_user), Dispatch LoadUser, Request GET_users_me,
       Dispatch (LoadPhones False)] @
      (if phones state = []
       then Request (GET_phones 100) #
         (if Left_first = Left_first
          then [Commit (SetUser (Some ?pr)), Commit (SetPhones demo_phones)]
          else [Commit (SetPhones demo_phones), Commit (SetUser (Some ?pr))])
       else [Commit (SetUser (Some ?pr))])"
    by (simp add: state_def)
  have fd: "find (\<lambda>x. Some (phone_id x) = active_phone_id ?pr) (phones ?sl) = Some ?p"
    by (simp add: setPhones_def Let_def demo_phones_def)
  have "setAuthUser_action demo_gateway Left_first demo_user state =
      \<lparr>store = store (run (setOwner_action demo_gateway (phone_number ?p)) ?sl),
       events = ?loads @ Dispatch (SetOwnerAction (phone_number ?p)) #
         events (run (setOwner_action demo_gateway (phone_number ?p)) ?sl),
       outcome = outcome (run (setOwner_action demo_gateway (phone_number ?p)) ?sl)\<rparr>"
    using setAuthUser_action_spec [where gw = demo_gateway and ar = Left_first
        and u = demo_user and s = state and pr = ?pr and ps = demo_phones and sl = ?sl
        and loads = ?loads and p = ?p] ch us ph sl ld fd
    by blast
  then have a: "setAuthUser_action demo_gateway Left_first demo_user state =
     \<lparr>store = state\<lparr>authUser := demo_user, phones := demo_phones, owner := Some ''+1B'',
        user := Some \<lparr>active_phone_id = Some ''2''\<rparr>\<rparr>,
      events = [Commit (SetAuthUser demo_user), Dispatch LoadUser, Request GET_users_me,
        Dispatch (LoadPhones False), Request (GET_phones 100),
        Commit (SetUser (Some \<lparr>active_phone_id = Some ''2''\<rparr>)), Commit (SetPhones demo_phones),
        Dispatch (SetOwnerAction ''+1B''), Commit (SetOwner ''+1B''),
        Request (PUT_users_me ''2''), Commit (SetUser (Some \<lparr>active_phone_id = Some ''2''\<rparr>))],
      outcome = Fulfilled\<rparr>"
    by (simp add: setOwner_action_run_cases demo_gateway_def demo_phones_def state_def
        setPhones_def setUser_def setAuthUser_def setOwner_def)
  have same: "\<not> (demo_user \<noteq> None \<and> map_option authUser_id demo_user \<noteq>
      map_option authUser_id (authUser (state\<lparr>authUser := demo_user\<rparr>)))"
    by simp
  have b: "events (setAuthUser_action demo_gateway Left_first demo_user
      (state\<lparr>authUser := demo_user\<rparr>)) = [Commit (SetAuthUser demo_user)]"
    using setAuthUser_action_spec [where gw = demo_gateway and ar = Left_first
        and u = demo_user and s = "state\<lparr>authUser := demo_user\<rparr>"] same
    by blast
  have null: "\<not> ((None :: AuthUser option) \<noteq> None \<and> map_option authUser_id None \<noteq>
      map_option authUser_id (authUser (state\<lparr>authUser := demo_user\<rparr>)))"
    by simp
  have c: "events (setAuthUser_action demo_gateway Left_first None
      (state\<lparr>authUser := demo_user\<rparr>)) = [Commit (SetAuthUser None)]"
    using setAuthUser_action_spec [where gw = demo_gateway and ar = Left_first
        and u = None and s = "state\<lparr>authUser := demo_user\<rparr>"] null
    by blast
  have d: "outcome (setAuthUser_action (demo_gateway\<lparr>get_users_me := Inl (AxiosError None)\<rparr>)
     Left_first demo_user state) = Rejected (AxiosError None)"
    by (rule demo_load_failed)
  from a b c d show ?thesis by blast
qed

section \<open>Properties of the page for a new message\<close>

lemma replace_first:
  "(\<forall>a' b'. a @ pat @ b = a' @ pat @ b' \<longrightarrow> length a \<le> length a') \<Longrightarrow>
   replace (a @ pat @ b) pat rep = a @ rep @ b"
proof (induction a)
  case Nil
  show ?case
  proof (cases "pat @ b")
    case Nil
    then show ?thesis by simp
  next
    case (Cons c cs)
    have "prefix pat (pat @ b)" by simp
    then have "prefix pat (c # cs)" using Cons by simp
    then have "replace (c # cs) pat rep = rep @ drop (length pat) (c # cs)" by simp
    also have "drop (length pat) (c # cs) = b" using Cons [symmetric] by simp
    finally show ?thesis using Cons by simp
  qed
next
  case (Cons c a)
  have np: "\<not> prefix pat (c # a @ pat @ b)"
  proof
    assume "prefix pat (c # a @ pat @ b)"
    then obtain b' where "(c # a) @ pat @ b = [] @ pat @ b'" by (auto simp: prefix_def)
    then have "length (c # a) \<le> length ([]::string)" using Cons.prems by blast
    then show False by simp
  qed
  have "\<forall>a' b'. a @ pat @ b = a' @ pat @ b' \<longrightarrow> length a \<le> length a'"
  proof (intro allI impI)
    fix a' b' assume "a @ pat @ b = a' @ pat @ b'"
    then have "(c # a) @ pat @ b = (c # a') @ pat @ b'" by simp
    then have "length (c # a) \<le> length (c # a')" using Cons.prems by blast
    then show "length a \<le> length a'" by simp
  qed
  then have "replace (a @ pat @ b) pat rep = a @ rep @ b" by (rule Cons.IH)
  then show ?case using np by simp
qed

lemma replace_absent:
  "(\<forall>a b. x \<noteq> a @ pat @ b) \<Longrightarrow> replace x pat rep = x"
proof (induction x)
  case Nil
  then have "pat \<noteq> []" by auto
  then show ?case by simp
next
  case (Cons c cs)
  have np: "\<not> prefix pat (c # cs)"
  proof
    assume "prefix pat (c # cs)"
    then obtain b where "c # cs = [] @ pat @ b" by (auto simp: prefix_def)
    then show False using Cons.prems by blast
  qed
  have "\<forall>a b. cs \<noteq> a @ pat @ b"
  proof (intro allI notI)
    fix a b assume "cs = a @ pat @ b"
    then have "c # cs = (c # a) @ pat @ b" by simp
    then show False using Cons.prems by blast
  qed
  then have "replace cs pat rep = cs" by (rule Cons.IH)
  then show ?case using np by simp
qed

lemma sendMessage_catch_validation:
  "sendMessage_catch (AxiosError (Some d)) =
     Inr ((\<lambda>k. if k = ''to''
                then map_option (map (\<lambda>x. replace x ''to field'' ''phone number field'')) (to_errors d)
                else if k = ''content'' then content_errors d else None),
          (case from_errors d of
             None \<Rightarrow> []
           | Some f \<Rightarrow> [Store_addNotification (case f of [] \<Rightarrow> None | x # xs \<Rightarrow> Some x) type_error]))"
  by (auto simp: sendMessage_catch_def Let_def fun_eq_iff split: option.splits)

lemma MessagesIndex_sendMessage_validation:
  "MessagesIndex_sendMessage s (Inl (AxiosError (Some d))) c =
     (c\<lparr>errors := (\<lambda>k. if k = ''to''
                then map_option (map (\<lambda>x. replace x ''to field'' ''phone number field'')) (to_errors d)
                else if k = ''content'' then content_errors d else None),
        sending := False\<rparr>,
      Post_messages_send (formPhoneNumber c) (getOwner s) (formContent c) #
      (case from_errors d of
         None \<Rightarrow> []
       | Some f \<Rightarrow> [Store_addNotification (case f of [] \<Rightarrow> None | x # xs \<Rightarrow> Some x) type_error]),
      Fulfilled)"
  by (simp add: MessagesIndex_sendMessage_def sendMessage_catch_validation Let_def)

text \<open>
  Claim C9. When the send-message request is rejected with validation errors, the
  messages the page holds for the field \<^verbatim>\<open>to\<close> are the ones of the answer, each
  with its first \<^verbatim>\<open>to field\<close> replaced by \<^verbatim>\<open>phone number field\<close>: a message
  \<open>a @ ''to field'' @ b\<close> with no earlier occurrence becomes
  \<open>a @ ''phone number field'' @ b\<close>, and a message without the words is kept. The page
  never holds a message for the field \<^verbatim>\<open>from\<close>: when the answer lists one, the page
  dispatches \<open>addNotification\<close> with the first such message and the type error, which
  the store then shows as its notification.
\<close>

theorem validation_errors_shown:
  "errors (fst (MessagesIndex_sendMessage s (Inl (AxiosError (Some d))) c)) ''to'' =
     map_option (map (\<lambda>x. replace x ''to field'' ''phone number field'')) (to_errors d) \<and>
   errors (fst (MessagesIndex_sendMessage s (Inl (AxiosError (Some d))) c)) ''from'' = None \<and>
   (from_errors d = Some (e # es) \<longrightarrow>
      fst (snd (MessagesIndex_sendMessage s (Inl (AxiosError (Some d))) c)) =
        [Post_messages_send (formPhoneNumber c) (getOwner s) (formContent c),
         Store_addNotification (Some e) type_error] \<and>
      notification (store (run
          (addNotification \<lparr>request_message = e, request_type = type_error\<rparr> u) s)) =
        \<lparr>message = e,
         timeout = defaultNotificationTimeout + Math_floor (double_times u 100),
         active = True, type = type_error\<rparr>) \<and>
   (from_errors d = None \<longrightarrow>
      fst (snd (MessagesIndex_sendMessage s (Inl (AxiosError (Some d))) c)) =
        [Post_messages_send (formPhoneNumber c) (getOwner s) (formContent c)]) \<and>
   ((\<forall>a' b'. a @ ''to field'' @ b = a' @ ''to field'' @ b' \<longrightarrow> length a \<le> length a') \<longrightarrow>
      replace (a @ ''to field'' @ b) ''to field'' ''phone number field'' =
        a @ ''phone number field'' @ b) \<and>
   ((\<forall>a' b'. y \<noteq> a' @ ''to field'' @ b') \<longrightarrow>
      replace y ''to field'' ''phone number field'' = y)"
proof -
  have a: "errors (fst (MessagesIndex_sendMessage s (Inl (AxiosError (Some d))) c)) ''to'' =
     map_option (map (\<lambda>x. replace x ''to field'' ''phone number field'')) (to_errors d)"
    by (simp add: MessagesIndex_sendMessage_validation)
  have b: "errors (fst (MessagesIndex_sendMessage s (Inl (AxiosError (Some d))) c)) ''from'' = None"
    by (simp add: MessagesIndex_sendMessage_validation)
  have c: "from_errors d = Some (e # es) \<longrightarrow>
      fst (snd (MessagesIndex_sendMessage s (Inl (AxiosError (Some d))) c)) =
        [Post_messages_send (formPhoneNumber c) (getOwner s) (formContent c),
         Store_addNotification (Some e) type_error] \<and>
      notification (store (run
          (addNotification \<lparr>request_message = e, request_type = type_error\<rparr> u) s)) =
        \<lparr>message = e,
         timeout = defaultNotificationTimeout + Math_floor (double_times u 100),
         active = True, type = type_error\<rparr>"
    by (simp add: MessagesIndex_sendMessage_validation addNotification_run setNotification_def)
  have d: "from_errors d = None \<longrightarrow>
      fst (snd (MessagesIndex_sendMessage s (Inl (AxiosError (Some d))) c)) =
        [Post_messages_send (formPhoneNumber c) (getOwner s) (formContent c)]"
    by (simp add: MessagesIndex_sendMessage_validation)
  have e: "(\<forall>a' b'. a @ ''to field'' @ b = a' @ ''to field'' @ b' \<longrightarrow> length a \<le> length a') \<longrightarrow>
      replace (a @ ''to field'' @ b) ''to field'' ''phone number field'' =
        a @ ''phone number field'' @ b"
    using replace_first [of a "''to field''" b "''phone number field''"] by blast
  have f: "(\<forall>a' b'. y \<noteq> a' @ ''to field'' @ b') \<longrightarrow>
      replace y ''to field'' ''phone number field'' = y"
    using replace_absent [of y "''to field''" "''phone number field''"] by blast
  from a b c d e f show ?thesis by blast
qed

lemma bad_has_no_to_field: "\<forall>a' b'. ''bad'' \<noteq> a' @ ''to field'' @ b'"
proof (intro allI notI)
  fix a' b' :: string
  assume "''bad'' = a' @ ''to field'' @ b'"
  then have "length ''bad'' = length (a' @ ''to field'' @ b')" by (rule arg_cong)
  then show False by simp
qed

theorem validation_errors_shown_witness:
  "errors (fst (MessagesIndex_sendMessage demo_state (Inl (AxiosError (Some demo_errors)))
      demo_page)) ''to'' = Some [''The phone number field is required'', ''bad''] \<and>
   fst (snd (MessagesIndex_sendMessage demo_state (Inl (AxiosError (Some demo_errors)))
      demo_page)) =
     [Post_messages_send ''+2'' (Some ''+1B'') ''hi'',
      Store_addNotification (Some ''The from field is not a phone number'') type_error] \<and>
   replace ''to field is required'' ''to field'' ''phone number field'' =
     ''phone number field is required'' \<and>
   replace ''bad'' ''to field'' ''phone number field'' = ''bad''"
  using validation_errors_shown [of demo_state demo_errors demo_page
      "''The from field is not a phone number''" "[]" _ "[]" "'' is required''" "''bad''"]
    bad_has_no_to_field
  by (simp add: demo_errors_def demo_page_def demo_state_def getOwner_def)

end
